theory Spec2Isabelle
  imports Complex_Main
begin

section \<open>The chess UI of script.js\<close>

text \<open>
  script.js is an event-driven browser UI around two collaborators that are not part of
  the repository: the rules engine (the \<^verbatim>\<open>Chess\<close> object of chess.js, in its
  snake-case API where \<^verbatim>\<open>move\<close> answers \<^verbatim>\<open>null\<close> for a rejected move)
  and the optional evaluation function \<^verbatim>\<open>window.fetchEngineEval\<close>.
  Both are parameters of the model. The mutable globals of the script and the DOM texts
  it writes are the fields of one state record, and every handler is a function from
  state to state.

  Strings are HOL strings. The CSS classes that only colour the squares
  (\<^verbatim>\<open>sel\<close>, \<^verbatim>\<open>move\<close>, \<^verbatim>\<open>capture\<close>, \<^verbatim>\<open>castle\<close>) and the console output
  are presentation without influence on any decision of the script; they are not part of
  the state, so \<^verbatim>\<open>clearHighlights\<close> has nothing to do here and
  \<^verbatim>\<open>highlightMoves\<close> keeps only its assignment to \<^verbatim>\<open>legalMovesFromSelected\<close>.
\<close>

subsection \<open>Data of the rules engine\<close>

type_synonym square = string

datatype color = White | Black

record piece =
  p_type :: string
  p_color :: color

text \<open>The object handed to \<^verbatim>\<open>game.move\<close>: \<^verbatim>\<open>{ from, to, promotion }\<close>,
  the promotion key possibly missing.\<close>

record move_req =
  mv_from :: square
  mv_to :: square
  mv_promotion :: "string option"

text \<open>A verbose move as listed by \<^verbatim>\<open>game.moves({ verbose: true })\<close>; only the
  fields the script reads.\<close>

record vmove =
  m_from :: square
  m_to :: square
  m_flags :: string
  m_promotion :: "string option"

text \<open>
  The rules engine over an arbitrary type \<open>'p\<close> of positions. \<open>move\<close> answers
  \<open>None\<close> where chess.js answers \<^verbatim>\<open>null\<close>, and the position is then the old one;
  otherwise it answers the position after the move.
\<close>

record 'p rules =
  game_over :: "'p \<Rightarrow> bool"
  turn :: "'p \<Rightarrow> color"
  get :: "'p \<Rightarrow> square \<Rightarrow> piece option"
  move :: "'p \<Rightarrow> move_req \<Rightarrow> 'p option"
  moves :: "'p \<Rightarrow> vmove list"
  moves_sq :: "'p \<Rightarrow> square \<Rightarrow> vmove list"
  in_check :: "'p \<Rightarrow> bool"
  in_checkmate :: "'p \<Rightarrow> bool"
  in_stalemate :: "'p \<Rightarrow> bool"
  in_threefold_repetition :: "'p \<Rightarrow> bool"
  insufficient_material :: "'p \<Rightarrow> bool"
  in_draw :: "'p \<Rightarrow> bool"
  fen :: "'p \<Rightarrow> string"
  reset :: "'p"

subsection \<open>State of the script\<close>

record pending =
  pp_from :: square
  pp_to :: square
  pp_color :: color

record 'p ui =
  game :: "'p"
  selectedSquare :: "square option"
  legalMovesFromSelected :: "square list"
  pendingPromotion :: "pending option"
  manualGameOver :: bool
  lastAIMoveUCI :: "string option"
  modalOpen :: bool
  rendered :: "'p"
  statusText :: string
  whoIsWinningText :: string
  whiteProbabilityText :: string
  blackProbabilityText :: string
  leftActive :: bool
  rightActive :: bool
  scheduled :: nat

text \<open>
  \<open>modalOpen\<close> is \<^verbatim>\<open>promotionModal.style.display === 'flex'\<close>, \<open>rendered\<close> the
  position last drawn by \<^verbatim>\<open>renderPieces\<close>, \<open>leftActive\<close> and \<open>rightActive\<close> the
  \<^verbatim>\<open>active\<close> class of the two player panels, and \<open>scheduled\<close> the number of
  \<^verbatim>\<open>setTimeout(engineEvaluateAndAct, ...)\<close> calls issued so far.
\<close>

subsection \<open>Truthiness\<close>

text \<open>\<^verbatim>\<open>!x\<close> for an \<open>x\<close> that is \<^verbatim>\<open>null\<close>, \<^verbatim>\<open>undefined\<close> or a string: the
  empty string is falsy as well.\<close>

definition truthy :: "'a list option \<Rightarrow> bool" where
  "truthy x = (case x of None \<Rightarrow> False | Some str \<Rightarrow> str \<noteq> [])"

text \<open>\<^verbatim>\<open>piece && piece.color === 'w'\<close>\<close>

definition is_white :: "piece option \<Rightarrow> bool" where
  "is_white x = (case x of None \<Rightarrow> False | Some p \<Rightarrow> p_color p = White)"

text \<open>\<^verbatim>\<open>str[i]\<close>: \<^verbatim>\<open>undefined\<close> out of range.\<close>

definition char_at :: "string \<Rightarrow> nat \<Rightarrow> char option" where
  "char_at str i = (if i < length str then Some (str ! i) else None)"

subsection \<open>Rendering and status\<close>

definition renderPieces :: "'p ui \<Rightarrow> 'p ui" where
  "renderPieces s = s\<lparr>rendered := game s\<rparr>"

definition highlightMoves :: "'p rules \<Rightarrow> square \<Rightarrow> 'p ui \<Rightarrow> 'p ui" where
  "highlightMoves R sq s = s\<lparr>legalMovesFromSelected := map m_to (moves_sq R (game s) sq)\<rparr>"

definition openPromotionModal :: "'p ui \<Rightarrow> 'p ui" where
  "openPromotionModal s = s\<lparr>modalOpen := True\<rparr>"

definition closePromotionModal :: "'p ui \<Rightarrow> 'p ui" where
  "closePromotionModal s = s\<lparr>modalOpen := False\<rparr>"

text \<open>The status text and the winner label of a finished game, in the order of the
  \<^verbatim>\<open>if\<close> chain of \<^verbatim>\<open>updateStatus\<close>.\<close>

definition terminal_label :: "'p rules \<Rightarrow> 'p \<Rightarrow> string \<times> string" where
  "terminal_label R g =
     (if in_checkmate R g then
        (let winnerLabel = (if turn R g = White then ''Mahmoud'' else ''You'')
         in (''Checkmate. '' @ winnerLabel @ '' won!'', winnerLabel @ '' won!''))
      else if in_stalemate R g then (''Stalemate. Draw!'', ''Draw!'')
      else if in_threefold_repetition R g then (''Threefold repetition. Draw!'', ''Draw!'')
      else if insufficient_material R g then (''Insufficient material. Draw!'', ''Draw!'')
      else if in_draw R g then (''50-move rule. Draw!'', ''Draw!'')
      else (''Game Over.'', ''Game Over''))"

definition updateStatus :: "'p rules \<Rightarrow> 'p ui \<Rightarrow> 'p ui" where
  "updateStatus R s =
     (if manualGameOver s then s
      else
        let g = game s;
            turnSide = turn R g;
            turnLabel = (if turnSide = White then ''You'' else ''Mahmoud'');
            status0 = turnLabel @ '' to move.'';
            status1 = (if \<not> game_over R g \<and> in_check R g
                       then status0 @ '' '' @
                            (if turnSide = White then ''You are in check!''
                             else ''Mahmoud is in check!'')
                       else status0);
            s1 = (if game_over R g
                  then s\<lparr>statusText := fst (terminal_label R g),
                         whoIsWinningText := snd (terminal_label R g)\<rparr>
                  else s\<lparr>statusText := status1\<rparr>)
        in if game_over R g
           then s1\<lparr>whiteProbabilityText := ''N/A'', blackProbabilityText := ''N/A'',
                   leftActive := False, rightActive := False\<rparr>
           else if turnSide = White
           then s1\<lparr>leftActive := True, rightActive := False\<rparr>
           else s1\<lparr>rightActive := True, leftActive := False\<rparr>)"

subsection \<open>The human's clicks\<close>

definition syncAfterHumanMove :: "'p rules \<Rightarrow> 'p ui \<Rightarrow> 'p ui" where
  "syncAfterHumanMove R s =
     (let s1 = updateStatus R (renderPieces s)
      in if \<not> manualGameOver s1 \<and> \<not> game_over R (game s1)
         then s1\<lparr>scheduled := Suc (scheduled s1)\<rparr> else s1)"

definition shouldPromptPromotion :: "'p rules \<Rightarrow> 'p \<Rightarrow> square \<Rightarrow> square \<Rightarrow> color \<Rightarrow> bool" where
  "shouldPromptPromotion R g frm dst c =
     (case get R g frm of
        None \<Rightarrow> False
      | Some p \<Rightarrow>
          if p_type p \<noteq> ''p'' \<or> p_color p \<noteq> c then False
          else let rank = char_at dst 1
               in (c = White \<and> rank = Some CHR ''8'') \<or> (c = Black \<and> rank = Some CHR ''1''))"

definition onSquareClick :: "'p rules \<Rightarrow> square \<Rightarrow> 'p ui \<Rightarrow> 'p ui" where
  "onSquareClick R sq s =
     (if manualGameOver s then s
      else if game_over R (game s) then s
      else if turn R (game s) \<noteq> White then s
      else
        let pc = get R (game s) sq in
        if \<not> truthy (selectedSquare s) then
          (if is_white pc then highlightMoves R sq (s\<lparr>selectedSquare := Some sq\<rparr>) else s)
        else if is_white pc \<and> Some sq \<noteq> selectedSquare s then
          highlightMoves R sq (s\<lparr>selectedSquare := Some sq\<rparr>)
        else
          (case selectedSquare s of
             None \<Rightarrow> s
           | Some sel \<Rightarrow>
               if shouldPromptPromotion R (game s) sel sq White then
                 openPromotionModal
                   (s\<lparr>pendingPromotion := Some \<lparr>pp_from = sel, pp_to = sq, pp_color = White\<rparr>\<rparr>)
               else
                 (case move R (game s) \<lparr>mv_from = sel, mv_to = sq, mv_promotion = Some ''q''\<rparr> of
                    None \<Rightarrow>
                      if is_white pc then highlightMoves R sq (s\<lparr>selectedSquare := Some sq\<rparr>)
                      else s\<lparr>selectedSquare := None\<rparr>
                  | Some g' \<Rightarrow>
                      syncAfterHumanMove R (s\<lparr>game := g', selectedSquare := None\<rparr>))))"

subsection \<open>The promotion modal\<close>

text \<open>
  What the click inside the modal hit: no button (\<^verbatim>\<open>e.target.closest('button')\<close>
  is \<^verbatim>\<open>null\<close>), or a button with its \<^verbatim>\<open>data-piece\<close> attribute, which
  \<^verbatim>\<open>getAttribute\<close> answers as a string or \<^verbatim>\<open>null\<close>.
\<close>

datatype promo_target = NoButton | Button "string option"

definition promotionClick :: "'p rules \<Rightarrow> promo_target \<Rightarrow> 'p ui \<Rightarrow> 'p ui" where
  "promotionClick R tgt s =
     (case tgt of
        NoButton \<Rightarrow> s
      | Button promotionPiece \<Rightarrow>
          (case pendingPromotion s of
             None \<Rightarrow> s
           | Some pd \<Rightarrow>
               (case move R (game s)
                       \<lparr>mv_from = pp_from pd, mv_to = pp_to pd, mv_promotion = promotionPiece\<rparr> of
                  Some g' \<Rightarrow>
                    syncAfterHumanMove R
                      (closePromotionModal (s\<lparr>game := g', pendingPromotion := None\<rparr>))
                | None \<Rightarrow>
                    updateStatus R
                      (renderPieces (closePromotionModal (s\<lparr>pendingPromotion := None\<rparr>))))))"

subsection \<open>Coordinate notation\<close>

text \<open>
  The recommended move is an arbitrary JavaScript value. A JavaScript string is a list of
  UTF-16 code units, integers from 0 to 65535. The squares, piece letters and messages of the
  script and of the rules engine are ASCII and are written as HOL strings; \<open>units\<close>
  gives the code units of such a string, and \<open>utf8\<close> writes code units as a HOL string,
  a unit above 127 in two or three bytes in the manner of UTF-8.

  \<^verbatim>\<open>trim\<close> strips the white space and the line terminators of ECMAScript from both
  ends (the code units 9 to 13, 32, 160, 5760, 8192 to 8202, 8232, 8233, 8239, 8287,
  12288 and 65279). \<^verbatim>\<open>toLowerCase\<close> is given on the strings made of ASCII and of
  U+0130 (code unit 304, the capital I with a dot above, whose lower case is the two code
  units 105 and 775); on every other string the model leaves its value open.
\<close>

type_synonym jstring = "int list"

datatype jsval = JStr jstring | JOther

definition units :: "string \<Rightarrow> jstring" where
  "units str = map of_char str"

definition encode_unit :: "int \<Rightarrow> string" where
  "encode_unit c =
     (if c < 128 then [char_of c]
      else if c < 2048 then [char_of (192 + c div 64), char_of (128 + c mod 64)]
      else [char_of (224 + c div 4096), char_of (128 + c div 64 mod 64),
            char_of (128 + c mod 64)])"

definition utf8 :: "jstring \<Rightarrow> string" where
  "utf8 u = concat (map encode_unit u)"

definition is_space :: "int \<Rightarrow> bool" where
  "is_space c =
     ((9 \<le> c \<and> c \<le> 13) \<or> c = 32 \<or> c = 160 \<or> c = 5760 \<or> (8192 \<le> c \<and> c \<le> 8202) \<or>
      c = 8232 \<or> c = 8233 \<or> c = 8239 \<or> c = 8287 \<or> c = 12288 \<or> c = 65279)"

definition trim :: "jstring \<Rightarrow> jstring" where
  "trim u = rev (dropWhile is_space (rev (dropWhile is_space u)))"

definition lower_unit :: "int \<Rightarrow> jstring" where
  "lower_unit c =
     (if 65 \<le> c \<and> c \<le> 90 then [c + 32] else if c = 304 then [105, 775] else [c])"

definition toLowerCase :: "jstring \<Rightarrow> jstring" where
  "toLowerCase u =
     (if list_all (\<lambda>c. (0 \<le> c \<and> c < 128) \<or> c = 304) u then concat (map lower_unit u)
      else undefined u)"

text \<open>\<^verbatim>\<open>str.slice(a, b)\<close> for \<open>0 \<le> a \<le> b\<close>.\<close>

definition slice :: "'a list \<Rightarrow> nat \<Rightarrow> nat \<Rightarrow> 'a list" where
  "slice str a b = take (b - a) (drop a str)"

definition uciToMove :: "jsval \<Rightarrow> move_req option" where
  "uciToMove uci =
     (case uci of
        JOther \<Rightarrow> None
      | JStr u \<Rightarrow>
          if u = [] then None
          else
            let str = toLowerCase (trim u) in
            if length str < 4 then None
            else
              let frm = slice str 0 2;
                  dst = slice str 2 4;
                  promotion0 = (if length str \<ge> 5 then Some [str ! 4] else None);
                  promotion = (if truthy promotion0 then map_option toLowerCase promotion0
                               else promotion0)
              in if truthy promotion
                 then Some \<lparr>mv_from = utf8 frm, mv_to = utf8 dst,
                            mv_promotion = map_option utf8 promotion\<rparr>
                 else Some \<lparr>mv_from = utf8 frm, mv_to = utf8 dst, mv_promotion = None\<rparr>)"

subsection \<open>Numbers\<close>

text \<open>
  A JavaScript number is an IEEE 754 double: \<open>NaN\<close>, an infinity, or a finite value,
  held as the real number it denotes (the two zeros are one value here: the script never
  divides by a number and prints both as \<^verbatim>\<open>0\<close>). An arithmetic operation gives the
  exact result rounded to the nearest double, a tie to the even significand, and an
  infinity when the rounded value reaches \<open>2 ^ 1024\<close>: that is \<open>round_to_double\<close>. For a
  positive \<open>x\<close>, \<open>binexp x\<close> is its binary exponent, not below \<open>-1022\<close>, the exponent
  of the subnormal numbers, and the doubles around \<open>x\<close> are the multiples of \<open>2\<close> to
  the power \<open>binexp x - 52\<close>.
\<close>

datatype jsnum = NaN | PInf | NInf | Fin real

definition pow2 :: "int \<Rightarrow> real" where
  "pow2 e = (if 0 \<le> e then 2 ^ nat e else 1 / 2 ^ nat (- e))"

function up :: "real \<Rightarrow> int \<Rightarrow> int" where
  "up x e = (if x < 2 then e else up (x / 2) (e + 1))"
  by pat_completeness auto
termination
  by (relation "measure (\<lambda>(x, e). nat \<lfloor>x\<rfloor>)") (auto, linarith)

function down :: "real \<Rightarrow> int \<Rightarrow> int" where
  "down x e = (if 1 \<le> x \<or> e \<le> - 1022 then e else down (2 * x) (e - 1))"
  by pat_completeness auto
termination
  by (relation "measure (\<lambda>(x, e). nat (e + 1022))") auto

definition binexp :: "real \<Rightarrow> int" where
  "binexp x = (if 1 \<le> x then up x 0 else down x 0)"

text \<open>The nearest integer, a tie to the even one.\<close>

definition round_even :: "real \<Rightarrow> int" where
  "round_even y =
     (let f = \<lfloor>y\<rfloor>; d = y - of_int f
      in if d < 1 / 2 then f else if 1 / 2 < d then f + 1 else if even f then f else f + 1)"

definition round_to_double :: "real \<Rightarrow> jsnum" where
  "round_to_double x =
     (if x = 0 then Fin 0
      else
        let a = \<bar>x\<bar>;
            e = binexp a;
            q = pow2 (e - 52);
            r = round_even (a / q)
        in if 1024 \<le> e \<or> (e = 1023 \<and> 2 ^ 53 \<le> r) then (if 0 < x then PInf else NInf)
           else Fin (if 0 < x then of_int r * q else - (of_int r * q)))"

text \<open>The operators \<^verbatim>\<open>*\<close> and \<^verbatim>\<open>-\<close> on numbers.\<close>

fun js_mul :: "jsnum \<Rightarrow> jsnum \<Rightarrow> jsnum" where
  "js_mul (Fin a) (Fin b) = round_to_double (a * b)"
| "js_mul NaN y = NaN"
| "js_mul x NaN = NaN"
| "js_mul (Fin a) y = (if a = 0 then NaN else if (0 < a) = (y = PInf) then PInf else NInf)"
| "js_mul x (Fin b) = (if b = 0 then NaN else if (0 < b) = (x = PInf) then PInf else NInf)"
| "js_mul x y = (if x = y then PInf else NInf)"

fun js_sub :: "jsnum \<Rightarrow> jsnum \<Rightarrow> jsnum" where
  "js_sub (Fin a) (Fin b) = round_to_double (a - b)"
| "js_sub NaN y = NaN"
| "js_sub x NaN = NaN"
| "js_sub (Fin a) PInf = NInf"
| "js_sub (Fin a) NInf = PInf"
| "js_sub PInf PInf = NaN"
| "js_sub NInf NInf = NaN"
| "js_sub PInf y = PInf"
| "js_sub NInf y = NInf"

text \<open>\<^verbatim>\<open>Math.round\<close> gives the nearest integer, a tie upwards, and \<^verbatim>\<open>Math.floor\<close>
  the integer below; both are exact.\<close>

definition Math_round :: "jsnum \<Rightarrow> jsnum" where
  "Math_round x = (case x of Fin r \<Rightarrow> Fin (of_int \<lfloor>r + 1 / 2\<rfloor>) | _ \<Rightarrow> x)"

definition Math_floor :: "jsnum \<Rightarrow> jsnum" where
  "Math_floor x = (case x of Fin r \<Rightarrow> Fin (of_int \<lfloor>r\<rfloor>) | _ \<Rightarrow> x)"

text \<open>\<^verbatim>\<open>x === y\<close> and \<^verbatim>\<open>x > y\<close> on numbers.\<close>

definition js_eq :: "jsnum \<Rightarrow> jsnum \<Rightarrow> bool" where
  "js_eq x y = (x \<noteq> NaN \<and> x = y)"

definition js_gt :: "jsnum \<Rightarrow> jsnum \<Rightarrow> bool" where
  "js_gt x y =
     (case x of
        NaN \<Rightarrow> False
      | PInf \<Rightarrow> (case y of Fin b \<Rightarrow> True | NInf \<Rightarrow> True | _ \<Rightarrow> False)
      | NInf \<Rightarrow> False
      | Fin a \<Rightarrow> (case y of Fin b \<Rightarrow> b < a | NInf \<Rightarrow> True | _ \<Rightarrow> False))"

fun digits :: "nat \<Rightarrow> string" where
  "digits n = (if n < 10 then [char_of (48 + n)] else digits (n div 10) @ [char_of (48 + n mod 10)])"

definition str_of_int :: "int \<Rightarrow> string" where
  "str_of_int i = (if i < 0 then CHR ''-'' # digits (nat (- i)) else digits (nat i))"

text \<open>
  A number inside a template literal. An integer of magnitude below \<open>10 ^ 21\<close> is
  written with its decimal digits; the script formats integers only. From \<open>10 ^ 21\<close> on
  JavaScript writes an exponent, which the model leaves open.
\<close>

definition num_text :: "jsnum \<Rightarrow> string" where
  "num_text x =
     (case x of
        NaN \<Rightarrow> ''NaN''
      | PInf \<Rightarrow> ''Infinity''
      | NInf \<Rightarrow> ''-Infinity''
      | Fin r \<Rightarrow> if of_int \<lfloor>r\<rfloor> = r \<and> \<bar>r\<bar> < 10 ^ 21 then str_of_int \<lfloor>r\<rfloor> else undefined r)"

text \<open>Reading a string of decimal digits, to say what \<open>digits\<close> writes.\<close>

definition is_digit :: "char \<Rightarrow> bool" where
  "is_digit c = (48 \<le> (of_char c :: nat) \<and> (of_char c :: nat) \<le> 57)"

definition decimal_value :: "string \<Rightarrow> nat" where
  "decimal_value str = foldl (\<lambda>a c. 10 * a + (of_char c - 48)) 0 str"

subsection \<open>The opponent's move\<close>

text \<open>The placeholder \<^verbatim>\<open>Calculating\<close> followed by an ellipsis (U+2026), in UTF-8.\<close>

definition calculating_text :: string where
  "calculating_text = ''Calculating'' @ [CHR 0xE2, CHR 0x80, CHR 0xA6]"

text \<open>
  What \<^verbatim>\<open>await window.fetchEngineEval(fen)\<close> gives. It throws or rejects
  (\<open>Threw\<close>). It resolves to a value on which the \<^verbatim>\<open>try\<close> block throws before it
  writes anything (\<open>Nullish\<close>): \<^verbatim>\<open>null\<close> or \<^verbatim>\<open>undefined\<close>, which cannot be
  destructured, or a value whose \<^verbatim>\<open>prob\<close> cannot be multiplied by a number. Or it resolves to a value with the two fields read from it: \<open>r_prob\<close> is
  the field \<^verbatim>\<open>prob\<close> as the number the multiplication makes of it (the number
  itself, \<open>NaN\<close> for a missing field, 0 for \<^verbatim>\<open>null\<close>, the value of a numeric
  string), \<open>r_best_move\<close> the field \<^verbatim>\<open>best_move\<close>.
\<close>

record response =
  r_prob :: jsnum
  r_best_move :: jsval

datatype fetch_reply = Threw | Nullish | Reply response

text \<open>Lines 286 to 290: the two percentages and the leading-indicator label.\<close>

definition show_probabilities :: "jsnum \<Rightarrow> 'p ui \<Rightarrow> 'p ui" where
  "show_probabilities prob s =
     (let wPct = Math_round (js_mul prob (Fin 100));
          bPct = js_sub (Fin 100) wPct
      in s\<lparr>whiteProbabilityText := num_text wPct @ ''%'',
            blackProbabilityText := num_text bPct @ ''%'',
            whoIsWinningText :=
              (if js_eq wPct (Fin 50) then ''Balanced''
               else if js_gt wPct (Fin 50) then ''You''
               else ''Mahmoud'')\<rparr>)"

text \<open>\<^verbatim>\<open>a || b\<close> on strings.\<close>

definition str_or :: "string option \<Rightarrow> string \<Rightarrow> string" where
  "str_or a b = (case a of None \<Rightarrow> b | Some str \<Rightarrow> if str = [] then b else str)"

definition jsval_str :: "jsval \<Rightarrow> string option" where
  "jsval_str v = (case v of JStr u \<Rightarrow> Some (utf8 u) | JOther \<Rightarrow> None)"

text \<open>Lines 293 to 312: the recommended move; the flag is \<^verbatim>\<open>moved\<close>.\<close>

definition apply_best_move :: "'p rules \<Rightarrow> jsval \<Rightarrow> 'p ui \<Rightarrow> 'p ui \<times> bool" where
  "apply_best_move R best_move s =
     (if turn R (game s) = Black \<and> \<not> game_over R (game s) then
        (case uciToMove best_move of
           None \<Rightarrow> (s, False)
         | Some mv \<Rightarrow>
             (case move R (game s) mv of
                Some g' \<Rightarrow>
                  (s\<lparr>game := g',
                     lastAIMoveUCI :=
                       Some (str_or (jsval_str best_move)
                               (mv_from mv @ mv_to mv @ str_or (mv_promotion mv) []))\<rparr>, True)
              | None \<Rightarrow>
                  if truthy (mv_promotion mv) then
                    (case move R (game s) (mv\<lparr>mv_promotion := Some ''q''\<rparr>) of
                       Some g' \<Rightarrow>
                         (s\<lparr>game := g',
                            lastAIMoveUCI := Some (mv_from mv @ mv_to mv @ ''q'')\<rparr>, True)
                     | None \<Rightarrow> (s, False))
                  else (s, False)))
      else (s, False))"

text \<open>The \<^verbatim>\<open>try\<close> block with its empty \<^verbatim>\<open>catch\<close>.\<close>

definition engine_reply :: "'p rules \<Rightarrow> fetch_reply \<Rightarrow> 'p ui \<Rightarrow> 'p ui \<times> bool" where
  "engine_reply R reply s =
     (case reply of
        Threw \<Rightarrow> (s, False)
      | Nullish \<Rightarrow> (s, False)
      | Reply r \<Rightarrow> apply_best_move R (r_best_move r) (show_probabilities (r_prob r) s))"

text \<open>
  The random fallback. \<open>rnd\<close> is the value of \<^verbatim>\<open>Math.random()\<close>, a double with
  \<open>0 \<le> rnd < 1\<close>; the index is then a whole number inside the list. An index that
  is not would make \<^verbatim>\<open>moves[idx]\<close> \<^verbatim>\<open>undefined\<close>; the model leaves the state
  alone there.
\<close>

definition random_index :: "real \<Rightarrow> nat \<Rightarrow> jsnum" where
  "random_index rnd n = Math_floor (js_mul (Fin rnd) (Fin (real n)))"

text \<open>\<^verbatim>\<open>xs[i]\<close> for a number \<open>i\<close>.\<close>

definition at_index :: "'a list \<Rightarrow> jsnum \<Rightarrow> 'a option" where
  "at_index xs i =
     (case i of
        Fin z \<Rightarrow> if 0 \<le> z \<and> z < real (length xs) \<and> of_int \<lfloor>z\<rfloor> = z
                 then Some (xs ! nat \<lfloor>z\<rfloor>) else None
      | _ \<Rightarrow> None)"

definition fallback_request :: "vmove \<Rightarrow> move_req" where
  "fallback_request m =
     (if CHR ''p'' \<in> set (m_flags m)
      then \<lparr>mv_from = m_from m, mv_to = m_to m, mv_promotion = Some ''q''\<rparr>
      else \<lparr>mv_from = m_from m, mv_to = m_to m, mv_promotion = m_promotion m\<rparr>)"

definition random_fallback :: "'p rules \<Rightarrow> real \<Rightarrow> 'p ui \<Rightarrow> 'p ui" where
  "random_fallback R rnd s =
     (let mvs = moves R (game s) in
      if length mvs > 0 then
        let idx = random_index rnd (length mvs) in
        case at_index mvs idx of
          None \<Rightarrow> s
        | Some m \<Rightarrow>
            let g' = (case move R (game s) (fallback_request m) of
                        Some g1 \<Rightarrow> g1 | None \<Rightarrow> game s)
            in s\<lparr>game := g',
                  lastAIMoveUCI := Some (m_from m @ m_to m @ str_or (m_promotion m) [])\<rparr>
      else s)"

text \<open>Lines 274 to 278, up to the \<^verbatim>\<open>await\<close>.\<close>

definition engine_begin :: "'p ui \<Rightarrow> 'p ui" where
  "engine_begin s =
     s\<lparr>whiteProbabilityText := calculating_text, blackProbabilityText := calculating_text\<rparr>"

text \<open>Lines 318 to 331: the fallback with its guard.\<close>

definition engine_fallback :: "'p rules \<Rightarrow> real \<Rightarrow> 'p ui \<times> bool \<Rightarrow> 'p ui" where
  "engine_fallback R rnd sm =
     (let s = fst sm; moved = snd sm in
      if \<not> moved \<and> turn R (game s) = Black \<and> \<not> game_over R (game s)
      then random_fallback R rnd s else s)"

text \<open>
  The whole cycle. \<open>fetchEngineEval\<close> is \<open>None\<close> when
  \<^verbatim>\<open>typeof window.fetchEngineEval\<close> is not \<^verbatim>\<open>'function'\<close>. The cycle is
  one step of the model: no other handler runs between the \<^verbatim>\<open>await\<close> and its
  continuation.
\<close>

definition engineEvaluateAndAct ::
    "'p rules \<Rightarrow> (string \<Rightarrow> fetch_reply) option \<Rightarrow> real \<Rightarrow> 'p ui \<Rightarrow> 'p ui" where
  "engineEvaluateAndAct R fetchEngineEval rnd s =
     (if manualGameOver s \<or> game_over R (game s) then s
      else
        let position = fen R (game s);
            s1 = engine_begin s;
            sm = (case fetchEngineEval of
                    None \<Rightarrow> (s1, False)
                  | Some f \<Rightarrow> engine_reply R (f position) s1);
            s2 = engine_fallback R rnd sm
        in updateStatus R (renderPieces s2))"

subsection \<open>A new game\<close>

definition startNewGame :: "'p rules \<Rightarrow> 'p ui \<Rightarrow> 'p ui" where
  "startNewGame R s =
     (let s1 = s\<lparr>game := reset R, selectedSquare := None, pendingPromotion := None,
                 manualGameOver := False, lastAIMoveUCI := None\<rparr>;
          s2 = closePromotionModal (updateStatus R (renderPieces s1))
      in s2\<lparr>scheduled := Suc (scheduled s2)\<rparr>)"

text \<open>A run of clicks on cells, the first of the list first.\<close>

definition clicks :: "'p rules \<Rightarrow> square list \<Rightarrow> 'p ui \<Rightarrow> 'p ui" where
  "clicks R sqs s = foldl (\<lambda>st sq. onSquareClick R sq st) s sqs"

text \<open>The two kinds of click the page listens to, and a run of them.\<close>

datatype ui_event = CellClick square | ModalClick promo_target

definition handle :: "'p rules \<Rightarrow> 'p ui \<Rightarrow> ui_event \<Rightarrow> 'p ui" where
  "handle R s ev =
     (case ev of CellClick sq \<Rightarrow> onSquareClick R sq s | ModalClick tgt \<Rightarrow> promotionClick R tgt s)"

definition run :: "'p rules \<Rightarrow> ui_event list \<Rightarrow> 'p ui \<Rightarrow> 'p ui" where
  "run R evs s = foldl (handle R) s evs"

text \<open>The globals as the script declares them (lines 23 to 28) around a position, before
  anything is drawn: the texts of the page are empty here.\<close>

definition fresh :: "'p \<Rightarrow> 'p ui" where
  "fresh g =
     \<lparr>game = g, selectedSquare = None, legalMovesFromSelected = [], pendingPromotion = None,
      manualGameOver = False, lastAIMoveUCI = None, modalOpen = False, rendered = g,
      statusText = [], whoIsWinningText = [], whiteProbabilityText = [],
      blackProbabilityText = [], leftActive = False, rightActive = False, scheduled = 0\<rparr>"

subsection \<open>What the script takes from the rules engine\<close>

text \<open>The legal destinations of a source cell, as \<^verbatim>\<open>highlightMoves\<close> computes them.\<close>

definition legal_destinations :: "'p rules \<Rightarrow> 'p \<Rightarrow> square \<Rightarrow> square list" where
  "legal_destinations R g frm = map m_to (moves_sq R g frm)"

text \<open>
  The script never checks a move itself: it relies on \<^verbatim>\<open>game.move\<close> to agree with
  \<^verbatim>\<open>game.moves\<close>. For White to move from \<open>frm\<close> to \<open>dst\<close> with the promotion
  field \<^verbatim>\<open>'q'\<close> that agreement is: a legal destination holds no white piece, the
  move to it is accepted and leaves Black to move; a move to any other cell is rejected.
\<close>

definition engine_agrees :: "'p rules \<Rightarrow> 'p \<Rightarrow> square \<Rightarrow> square \<Rightarrow> bool" where
  "engine_agrees R g frm dst =
     (if dst \<in> set (legal_destinations R g frm)
      then \<not> is_white (get R g dst) \<and>
           (case move R g \<lparr>mv_from = frm, mv_to = dst, mv_promotion = Some ''q''\<rparr> of
              None \<Rightarrow> False
            | Some g' \<Rightarrow> turn R g' = Black)
      else move R g \<lparr>mv_from = frm, mv_to = dst, mv_promotion = Some ''q''\<rparr> = None)"

subsection \<open>A scripted rules engine\<close>

text \<open>
  For concrete runs the rules engine is a finite script: a position lists its side to
  move, its pieces, its legal moves each with the position it leads to, the conditions
  chess.js reports for it, and its FEN. \<open>sc_move\<close> looks a request up the way chess.js
  matches a move object against its generated moves: source and destination equal, and
  the promotion equal where the listed move has one. A position at the end of the script
  lists no continuation.
\<close>

datatype cond = Check | Checkmate | Stalemate | Threefold | Insufficient | FiftyMoves

datatype script =
  Script (sc_turn: color) (sc_board: "(square \<times> piece) list")
         (sc_next: "(vmove \<times> script) list") (sc_conds: "cond list") (sc_fen: string)

definition matches :: "move_req \<Rightarrow> vmove \<Rightarrow> bool" where
  "matches req m =
     (mv_from req = m_from m \<and> mv_to req = m_to m \<and>
      (m_promotion m = None \<or> mv_promotion req = m_promotion m))"

definition sc_move :: "script \<Rightarrow> move_req \<Rightarrow> script option" where
  "sc_move g req = map_option snd (find (\<lambda>mn. matches req (fst mn)) (sc_next g))"

definition sc_has :: "cond \<Rightarrow> script \<Rightarrow> bool" where
  "sc_has c g = (c \<in> set (sc_conds g))"

definition script_rules :: "script \<Rightarrow> script rules" where
  "script_rules start =
     \<lparr>game_over = (\<lambda>g. sc_has Checkmate g \<or> sc_has Stalemate g \<or> sc_has Threefold g \<or>
                        sc_has Insufficient g \<or> sc_has FiftyMoves g),
      turn = sc_turn,
      get = (\<lambda>g. map_of (sc_board g)),
      move = sc_move,
      moves = (\<lambda>g. map fst (sc_next g)),
      moves_sq = (\<lambda>g sq. filter (\<lambda>m. m_from m = sq) (map fst (sc_next g))),
      in_check = sc_has Check,
      in_checkmate = sc_has Checkmate,
      in_stalemate = sc_has Stalemate,
      in_threefold_repetition = sc_has Threefold,
      insufficient_material = sc_has Insufficient,
      in_draw = (\<lambda>g. sc_has Stalemate g \<or> sc_has Threefold g \<or> sc_has Insufficient g \<or>
                      sc_has FiftyMoves g),
      fen = sc_fen,
      reset = start\<rparr>"

definition pc :: "string \<Rightarrow> color \<Rightarrow> piece" where
  "pc t c = \<lparr>p_type = t, p_color = c\<rparr>"

definition mv :: "square \<Rightarrow> square \<Rightarrow> string \<Rightarrow> string option \<Rightarrow> vmove" where
  "mv frm dst flags promo = \<lparr>m_from = frm, m_to = dst, m_flags = flags, m_promotion = promo\<rparr>"

text \<open>A position at the end of the script, with the conditions reported for it.\<close>

definition leaf_with :: "cond list \<Rightarrow> color \<Rightarrow> (square \<times> piece) list \<Rightarrow> script" where
  "leaf_with conds c board = Script c board [] conds []"

definition leaf :: "color \<Rightarrow> (square \<times> piece) list \<Rightarrow> script" where
  "leaf c board = leaf_with [] c board"

text \<open>
  White: king e1, pawns a7 and h2. Black: king e8. White to move
  (\<^verbatim>\<open>4k3/P7/8/8/8/8/7P/4K3 w - - 0 1\<close>). The pawn on a7 promotes on a8 in four ways.
  After the promotion to a rook Black is in check and has three king moves.
\<close>

definition pos_rook :: script where
  "pos_rook =
     Script Black
       [(''e1'', pc ''k'' White), (''a8'', pc ''r'' White), (''h2'', pc ''p'' White),
        (''e8'', pc ''k'' Black)]
       [(mv ''e8'' ''f7'' ''n'' None,
           leaf White [(''e1'', pc ''k'' White), (''a8'', pc ''r'' White),
                       (''h2'', pc ''p'' White), (''f7'', pc ''k'' Black)]),
        (mv ''e8'' ''e7'' ''n'' None,
           leaf White [(''e1'', pc ''k'' White), (''a8'', pc ''r'' White),
                       (''h2'', pc ''p'' White), (''e7'', pc ''k'' Black)]),
        (mv ''e8'' ''d7'' ''n'' None,
           leaf White [(''e1'', pc ''k'' White), (''a8'', pc ''r'' White),
                       (''h2'', pc ''p'' White), (''d7'', pc ''k'' Black)])]
       [Check]
       ''R3k3/8/8/8/8/8/7P/4K3 b - - 0 1''"

text \<open>A queen or a rook on a8 gives check along the eighth rank.\<close>

definition after_promotion :: "string \<Rightarrow> script" where
  "after_promotion t =
     leaf_with (if t = ''q'' \<or> t = ''r'' then [Check] else []) Black
       [(''e1'', pc ''k'' White), (''a8'', pc t White), (''h2'', pc ''p'' White),
        (''e8'', pc ''k'' Black)]"

definition after_white :: "square \<Rightarrow> string \<Rightarrow> square \<Rightarrow> script" where
  "after_white frm t dst =
     leaf Black
       ((dst, pc t White) #
        filter (\<lambda>sp. fst sp \<noteq> frm)
          [(''e1'', pc ''k'' White), (''a7'', pc ''p'' White), (''h2'', pc ''p'' White),
           (''e8'', pc ''k'' Black)])"

definition pos_a :: script where
  "pos_a =
     Script White
       [(''e1'', pc ''k'' White), (''a7'', pc ''p'' White), (''h2'', pc ''p'' White),
        (''e8'', pc ''k'' Black)]
       [(mv ''a7'' ''a8'' ''np'' (Some ''q''), after_promotion ''q''),
        (mv ''a7'' ''a8'' ''np'' (Some ''r''), pos_rook),
        (mv ''a7'' ''a8'' ''np'' (Some ''b''), after_promotion ''b''),
        (mv ''a7'' ''a8'' ''np'' (Some ''n''), after_promotion ''n''),
        (mv ''h2'' ''h3'' ''n'' None, after_white ''h2'' ''p'' ''h3''),
        (mv ''h2'' ''h4'' ''b'' None, after_white ''h2'' ''p'' ''h4''),
        (mv ''e1'' ''d2'' ''n'' None, after_white ''e1'' ''k'' ''d2''),
        (mv ''e1'' ''e2'' ''n'' None, after_white ''e1'' ''k'' ''e2''),
        (mv ''e1'' ''f2'' ''n'' None, after_white ''e1'' ''k'' ''f2''),
        (mv ''e1'' ''f1'' ''n'' None, after_white ''e1'' ''k'' ''f1''),
        (mv ''e1'' ''d1'' ''n'' None, after_white ''e1'' ''k'' ''d1'')]
       []
       ''4k3/P7/8/8/8/8/7P/4K3 w - - 0 1''"

text \<open>
  White: king e1. Black: king e8, pawn b2. Black to move
  (\<^verbatim>\<open>4k3/8/8/8/8/8/1p6/4K3 b - - 0 1\<close>): five king moves and the promotion on b1 in
  four ways.
\<close>

text \<open>A queen or a rook on b1 gives check along the first rank.\<close>

definition after_black :: "square \<Rightarrow> string \<Rightarrow> square \<Rightarrow> script" where
  "after_black frm t dst =
     leaf_with (if frm = ''b2'' \<and> (t = ''q'' \<or> t = ''r'') then [Check] else []) White
       ((dst, pc t Black) #
        filter (\<lambda>sp. fst sp \<noteq> frm)
          [(''e1'', pc ''k'' White), (''e8'', pc ''k'' Black), (''b2'', pc ''p'' Black)])"

definition pos_b :: script where
  "pos_b =
     Script Black
       [(''e1'', pc ''k'' White), (''e8'', pc ''k'' Black), (''b2'', pc ''p'' Black)]
       [(mv ''e8'' ''f8'' ''n'' None, after_black ''e8'' ''k'' ''f8''),
        (mv ''e8'' ''f7'' ''n'' None, after_black ''e8'' ''k'' ''f7''),
        (mv ''e8'' ''e7'' ''n'' None, after_black ''e8'' ''k'' ''e7''),
        (mv ''e8'' ''d7'' ''n'' None, after_black ''e8'' ''k'' ''d7''),
        (mv ''e8'' ''d8'' ''n'' None, after_black ''e8'' ''k'' ''d8''),
        (mv ''b2'' ''b1'' ''np'' (Some ''q''), after_black ''b2'' ''q'' ''b1''),
        (mv ''b2'' ''b1'' ''np'' (Some ''r''), after_black ''b2'' ''r'' ''b1''),
        (mv ''b2'' ''b1'' ''np'' (Some ''b''), after_black ''b2'' ''b'' ''b1''),
        (mv ''b2'' ''b1'' ''np'' (Some ''n''), after_black ''b2'' ''n'' ''b1'')]
       []
       ''4k3/8/8/8/8/8/1p6/4K3 b - - 0 1''"

text \<open>
  White: king h1. Black: king h3, queen g2. White is checkmated
  (\<^verbatim>\<open>8/8/8/8/8/7k/6q1/7K w - - 0 1\<close>).
\<close>

definition pos_mate :: script where
  "pos_mate =
     Script White
       [(''h1'', pc ''k'' White), (''h3'', pc ''k'' Black), (''g2'', pc ''q'' Black)]
       [] [Check, Checkmate]
       ''8/8/8/8/8/7k/6q1/7K w - - 0 1''"

text \<open>The scripted engine started on the first position, and the state after the
  human has clicked the pawn on a7.\<close>

definition chess_a :: "script rules" where
  "chess_a = script_rules pos_a"

definition a7_selected :: "script ui" where
  "a7_selected = clicks chess_a [''a7''] (fresh pos_a)"

text \<open>The states after the click on the pawn on h2, and after the next click on a8 or h8.\<close>

definition h2_selected :: "script ui" where
  "h2_selected = clicks chess_a [''h2''] (fresh pos_a)"

definition a8_pending :: "script ui" where
  "a8_pending = onSquareClick chess_a ''a8'' a7_selected"

definition h8_pending :: "script ui" where
  "h8_pending = onSquareClick chess_a ''h8'' h2_selected"

text \<open>
  The first position with the halfmove clock at 98
  (\<^verbatim>\<open>4k3/P7/8/8/8/8/7P/4K3 w - - 98 60\<close>). After the king move e1-e2 and any reply of
  the black king the clock is at 100: chess.js reports the game over and drawn by the
  fifty-move rule, and still lists and accepts the legal moves of White, the promotion on
  a8 among them. \<open>drawn sq f\<close> is that position with the black king on \<open>sq\<close> and the
  FEN \<open>f\<close>; a pawn move from it resets the clock, a king move does not.
\<close>

definition crowned :: "string \<Rightarrow> square \<Rightarrow> script" where
  "crowned t sq =
     leaf_with (if (t = ''q'' \<or> t = ''r'') \<and> (sq = ''d8'' \<or> sq = ''f8'') then [Check] else [])
       Black
       [(''e2'', pc ''k'' White), (''a8'', pc t White), (''h2'', pc ''p'' White),
        (sq, pc ''k'' Black)]"

definition after_drawn :: "cond list \<Rightarrow> square \<Rightarrow> string \<Rightarrow> square \<Rightarrow> square \<Rightarrow> script" where
  "after_drawn conds frm t dst sq =
     leaf_with conds Black
       ((dst, pc t White) #
        filter (\<lambda>sp. fst sp \<noteq> frm)
          [(''e2'', pc ''k'' White), (''a7'', pc ''p'' White), (''h2'', pc ''p'' White),
           (sq, pc ''k'' Black)])"

definition drawn :: "square \<Rightarrow> string \<Rightarrow> script" where
  "drawn sq f =
     Script White
       [(''e2'', pc ''k'' White), (''a7'', pc ''p'' White), (''h2'', pc ''p'' White),
        (sq, pc ''k'' Black)]
       [(mv ''a7'' ''a8'' ''np'' (Some ''q''), crowned ''q'' sq),
        (mv ''a7'' ''a8'' ''np'' (Some ''r''), crowned ''r'' sq),
        (mv ''a7'' ''a8'' ''np'' (Some ''b''), crowned ''b'' sq),
        (mv ''a7'' ''a8'' ''np'' (Some ''n''), crowned ''n'' sq),
        (mv ''e2'' ''d3'' ''n'' None, after_drawn [FiftyMoves] ''e2'' ''k'' ''d3'' sq),
        (mv ''e2'' ''e3'' ''n'' None, after_drawn [FiftyMoves] ''e2'' ''k'' ''e3'' sq),
        (mv ''e2'' ''f3'' ''n'' None, after_drawn [FiftyMoves] ''e2'' ''k'' ''f3'' sq),
        (mv ''e2'' ''f2'' ''n'' None, after_drawn [FiftyMoves] ''e2'' ''k'' ''f2'' sq),
        (mv ''e2'' ''f1'' ''n'' None, after_drawn [FiftyMoves] ''e2'' ''k'' ''f1'' sq),
        (mv ''e2'' ''e1'' ''n'' None, after_drawn [FiftyMoves] ''e2'' ''k'' ''e1'' sq),
        (mv ''e2'' ''d1'' ''n'' None, after_drawn [FiftyMoves] ''e2'' ''k'' ''d1'' sq),
        (mv ''e2'' ''d2'' ''n'' None, after_drawn [FiftyMoves] ''e2'' ''k'' ''d2'' sq),
        (mv ''h2'' ''h3'' ''n'' None, after_drawn [] ''h2'' ''p'' ''h3'' sq),
        (mv ''h2'' ''h4'' ''b'' None, after_drawn [] ''h2'' ''p'' ''h4'' sq)]
       [FiftyMoves]
       f"

definition pos_c1 :: script where
  "pos_c1 =
     Script Black
       [(''e2'', pc ''k'' White), (''a7'', pc ''p'' White), (''h2'', pc ''p'' White),
        (''e8'', pc ''k'' Black)]
       [(mv ''e8'' ''f8'' ''n'' None, drawn ''f8'' ''5k2/P7/8/8/8/8/4K2P/8 w - - 100 61''),
        (mv ''e8'' ''f7'' ''n'' None, drawn ''f7'' ''8/P4k2/8/8/8/8/4K2P/8 w - - 100 61''),
        (mv ''e8'' ''e7'' ''n'' None, drawn ''e7'' ''8/P3k3/8/8/8/8/4K2P/8 w - - 100 61''),
        (mv ''e8'' ''d7'' ''n'' None, drawn ''d7'' ''8/P2k4/8/8/8/8/4K2P/8 w - - 100 61''),
        (mv ''e8'' ''d8'' ''n'' None, drawn ''d8'' ''3k4/P7/8/8/8/8/4K2P/8 w - - 100 61'')]
       []
       ''4k3/P7/8/8/8/8/4K2P/8 b - - 99 60''"

definition pos_c :: script where
  "pos_c =
     Script White
       [(''e1'', pc ''k'' White), (''a7'', pc ''p'' White), (''h2'', pc ''p'' White),
        (''e8'', pc ''k'' Black)]
       [(mv ''a7'' ''a8'' ''np'' (Some ''q''), after_promotion ''q''),
        (mv ''a7'' ''a8'' ''np'' (Some ''r''), pos_rook),
        (mv ''a7'' ''a8'' ''np'' (Some ''b''), after_promotion ''b''),
        (mv ''a7'' ''a8'' ''np'' (Some ''n''), after_promotion ''n''),
        (mv ''h2'' ''h3'' ''n'' None, after_white ''h2'' ''p'' ''h3''),
        (mv ''h2'' ''h4'' ''b'' None, after_white ''h2'' ''p'' ''h4''),
        (mv ''e1'' ''d2'' ''n'' None, after_white ''e1'' ''k'' ''d2''),
        (mv ''e1'' ''e2'' ''n'' None, pos_c1),
        (mv ''e1'' ''f2'' ''n'' None, after_white ''e1'' ''k'' ''f2''),
        (mv ''e1'' ''f1'' ''n'' None, after_white ''e1'' ''k'' ''f1''),
        (mv ''e1'' ''d1'' ''n'' None, after_white ''e1'' ''k'' ''d1'')]
       []
       ''4k3/P7/8/8/8/8/7P/4K3 w - - 98 60''"

text \<open>
  A run of the handlers on it: the clicks a7 and a8 open the promotion modal; the clicks
  e1 and e2 play the king move; the opponent's cycle, with no collaborator and
  \<^verbatim>\<open>Math.random()\<close> at \<open>3/4\<close>, plays the king to d7; the game is then over with the
  promotion still pending.
\<close>

definition chess_c :: "script rules" where
  "chess_c = script_rules pos_c"

definition behind_modal :: "script ui" where
  "behind_modal = clicks chess_c [''a7'', ''a8'', ''e1'', ''e2''] (fresh pos_c)"

definition over_and_pending :: "script ui" where
  "over_and_pending = engineEvaluateAndAct chess_c None (3 / 4) behind_modal"

text \<open>
  White: king b6, bishop c7. Black: king a8, to move and stalemated; the material is
  insufficient as well (\<^verbatim>\<open>k7/2B5/1K6/8/8/8/8/8 b - - 0 1\<close>).
\<close>

definition pos_stale :: script where
  "pos_stale =
     Script Black
       [(''a8'', pc ''k'' Black), (''b6'', pc ''k'' White), (''c7'', pc ''b'' White)]
       [] [Stalemate, Insufficient]
       ''k7/2B5/1K6/8/8/8/8/8 b - - 0 1''"

text \<open>
  Evaluation collaborators: one that recommends the promotion on b1 with a letter that is
  no piece, one that recommends a move that is not legal, one that resolves to an object
  with neither field, and one that throws.
\<close>

definition retry_reply :: "string \<Rightarrow> fetch_reply" where
  "retry_reply position = Reply \<lparr>r_prob = Fin (1 / 4), r_best_move = JStr (units ''b2b1x'')\<rparr>"

definition illegal_reply :: "string \<Rightarrow> fetch_reply" where
  "illegal_reply position = Reply \<lparr>r_prob = Fin (1 / 4), r_best_move = JStr (units ''e1e2'')\<rparr>"

definition empty_reply :: "string \<Rightarrow> fetch_reply" where
  "empty_reply position = Reply \<lparr>r_prob = NaN, r_best_move = JOther\<rparr>"

definition throwing :: "string \<Rightarrow> fetch_reply" where
  "throwing position = Threw"

section \<open>Properties\<close>

subsection \<open>Clicks that are ignored\<close>

lemma onSquareClick_blocked:
  "manualGameOver s \<or> game_over R (game s) \<or> turn R (game s) \<noteq> White \<Longrightarrow>
     onSquareClick R sq s = s"
  by (auto simp: onSquareClick_def)

lemma clicks_blocked:
  "manualGameOver s \<or> game_over R (game s) \<or> turn R (game s) \<noteq> White \<Longrightarrow>
     clicks R sqs s = s"
  unfolding clicks_def by (induction sqs) (simp_all add: onSquareClick_blocked)

lemma promotionClick_idle: "pendingPromotion s = None \<Longrightarrow> promotionClick R tgt s = s"
  by (simp add: promotionClick_def split: promo_target.splits)

lemma run_blocked:
  assumes "manualGameOver s \<or> game_over R (game s) \<or> turn R (game s) \<noteq> White"
      and "pendingPromotion s = None"
  shows "run R evs s = s"
  unfolding run_def using assms
  by (induction evs)
     (simp_all add: handle_def onSquareClick_blocked promotionClick_idle split: ui_event.splits)

text \<open>
  Claim C2. The handler of the cells is guarded (the two lemmas above): off White's turn,
  or once the game is over, a click on a cell changes nothing. The handler of the modal's
  buttons has no such guard, and a click on a cell does not look at the pending
  promotion, so a promotion can stay pending while the game goes on and ends. In the run
  below the clicks a7 and a8 open the modal, the clicks e1 and e2 play the king move
  behind it, and Black's reply brings the halfmove clock to 100: the game is over, drawn
  by the fifty-move rule. A click on a cell is then ignored, but the click on the queen
  button of the modal submits a7-a8 with the promotion \<^verbatim>\<open>'q'\<close>; the rules engine
  accepts it, and the position changes after the game has reached a terminal state.
\<close>

theorem modal_click_after_game_over:
  "pendingPromotion behind_modal
     = Some \<lparr>pp_from = ''a7'', pp_to = ''a8'', pp_color = White\<rparr> \<and>
   game behind_modal = pos_c1 \<and>
   game over_and_pending = drawn ''d7'' ''8/P2k4/8/8/8/8/4K2P/8 w - - 100 61'' \<and>
   game_over chess_c (game over_and_pending) \<and>
   turn chess_c (game over_and_pending) = White \<and>
   pendingPromotion over_and_pending
     = Some \<lparr>pp_from = ''a7'', pp_to = ''a8'', pp_color = White\<rparr> \<and>
   modalOpen over_and_pending \<and>
   onSquareClick chess_c ''a7'' over_and_pending = over_and_pending \<and>
   game (promotionClick chess_c (Button (Some ''q'')) over_and_pending) = crowned ''q'' ''d7'' \<and>
   game (run chess_c [CellClick ''a7'', CellClick ''a8'', ModalClick (Button (Some ''q''))]
           over_and_pending) = crowned ''q'' ''d7'' \<and>
   get chess_c (crowned ''q'' ''d7'') ''a8'' = Some \<lparr>p_type = ''q'', p_color = White\<rparr> \<and>
   get chess_c (game over_and_pending) ''a8'' = None \<and>
   crowned ''q'' ''d7'' \<noteq> game over_and_pending"
  by code_simp

subsection \<open>Selection and pending promotion\<close>

text \<open>
  Claim C1, as stated, fails. From a state with neither a selection nor a pending
  promotion, the clicks a7 and a8 (a white pawn and the cell in front of it on rank 8)
  end in a state that holds both: \<open>onSquareClick\<close> records the pending promotion and
  returns without touching \<open>selectedSquare\<close>.
\<close>

theorem selection_and_pending_both_set:
  "selectedSquare (fresh pos_a) = None \<and> pendingPromotion (fresh pos_a) = None \<and>
   selectedSquare (clicks chess_a [''a7'', ''a8''] (fresh pos_a)) = Some ''a7'' \<and>
   pendingPromotion (clicks chess_a [''a7'', ''a8''] (fresh pos_a)) =
     Some \<lparr>pp_from = ''a7'', pp_to = ''a8'', pp_color = White\<rparr>"
  by code_simp

text \<open>
  Claim C1, amended. Whenever \<open>onSquareClick\<close> creates a pending promotion (the record
  after the click differs from the one before), there was an active selection, the click
  keeps it, the new record is the move from the selected cell to the clicked cell for
  White, and the position is the one before the click.
\<close>

theorem pending_created_keeps_selection:
  "pendingPromotion (onSquareClick R sq s) \<noteq> pendingPromotion s \<Longrightarrow>
     selectedSquare s \<noteq> None \<and>
     selectedSquare (onSquareClick R sq s) = selectedSquare s \<and>
     pendingPromotion (onSquareClick R sq s) =
       map_option (\<lambda>sel. \<lparr>pp_from = sel, pp_to = sq, pp_color = White\<rparr>) (selectedSquare s) \<and>
     game (onSquareClick R sq s) = game s"
  by (auto simp: onSquareClick_def highlightMoves_def openPromotionModal_def
        syncAfterHumanMove_def updateStatus_def renderPieces_def Let_def truthy_def
      split: if_splits option.splits)

theorem pending_created_keeps_selection_witness:
  "pendingPromotion (onSquareClick chess_a ''a8'' a7_selected) \<noteq> pendingPromotion a7_selected \<and>
   selectedSquare a7_selected = Some ''a7'' \<and>
   selectedSquare (onSquareClick chess_a ''a8'' a7_selected) = selectedSquare a7_selected \<and>
   pendingPromotion (onSquareClick chess_a ''a8'' a7_selected) =
     map_option (\<lambda>sel. \<lparr>pp_from = sel, pp_to = ''a8'', pp_color = White\<rparr>)
       (selectedSquare a7_selected) \<and>
   game (onSquareClick chess_a ''a8'' a7_selected) = game a7_selected"
proof -
  have created:
    "pendingPromotion (onSquareClick chess_a ''a8'' a7_selected) \<noteq> pendingPromotion a7_selected"
    by code_simp
  have sel: "selectedSquare a7_selected = Some ''a7''"
    by code_simp
  from pending_created_keeps_selection [OF created] created sel show ?thesis
    by blast
qed

lemma shouldPromptPromotion_White:
  "shouldPromptPromotion R g frm dst White \<longleftrightarrow>
     (\<exists>p. get R g frm = Some p \<and> p_type p = ''p'' \<and> p_color p = White) \<and>
     char_at dst 1 = Some CHR ''8''"
  by (auto simp: shouldPromptPromotion_def Let_def split: option.splits)

lemma gate_click:
  assumes "\<not> manualGameOver s" "\<not> game_over R (game s)" "turn R (game s) = White"
      and "selectedSquare s = Some sel" "sel \<noteq> []"
      and "shouldPromptPromotion R (game s) sel sq White"
      and "\<not> (is_white (get R (game s) sq) \<and> sq \<noteq> sel)"
  shows "onSquareClick R sq s =
           s\<lparr>pendingPromotion := Some \<lparr>pp_from = sel, pp_to = sq, pp_color = White\<rparr>,
             modalOpen := True\<rparr>"
  using assms by (auto simp: onSquareClick_def truthy_def openPromotionModal_def)

lemma game_syncAfterHumanMove [simp]: "game (syncAfterHumanMove R s) = game s"
  by (simp add: syncAfterHumanMove_def updateStatus_def renderPieces_def Let_def)

lemma game_updateStatus [simp]: "game (updateStatus R s) = game s"
  by (simp add: updateStatus_def Let_def)

lemma game_highlightMoves [simp]: "game (highlightMoves R sq s) = game s"
  by (simp add: highlightMoves_def)

lemma gate_never_moves:
  assumes "selectedSquare s = Some sel" "shouldPromptPromotion R (game s) sel sq White"
  shows "game (onSquareClick R sq s) = game s"
  using assms by (auto simp: onSquareClick_def truthy_def openPromotionModal_def Let_def)

lemma move_click:
  assumes "\<not> manualGameOver s" "\<not> game_over R (game s)" "turn R (game s) = White"
      and "selectedSquare s = Some sel" "sel \<noteq> []"
      and "\<not> shouldPromptPromotion R (game s) sel sq White"
      and "\<not> (is_white (get R (game s) sq) \<and> sq \<noteq> sel)"
  shows "game (onSquareClick R sq s) =
           (case move R (game s) \<lparr>mv_from = sel, mv_to = sq, mv_promotion = Some ''q''\<rparr> of
              None \<Rightarrow> game s | Some g' \<Rightarrow> g')"
  using assms by (auto simp: onSquareClick_def truthy_def Let_def split: option.splits)

lemma reselect_click:
  assumes "selectedSquare s = Some sel" "is_white (get R (game s) sq) \<and> sq \<noteq> sel"
  shows "game (onSquareClick R sq s) = game s"
  using assms by (auto simp: onSquareClick_def truthy_def Let_def)

subsection \<open>Clicks with an active selection\<close>

text \<open>
  Claim C3, amended. With a cell selected and the rules engine agreeing with its own
  list of moves: on White's turn in a running game, a click on a legal destination that
  the promotion gate does not catch submits the move, the position becomes the one the
  engine answers and Black is to move; a click on a legal destination that the gate
  catches (a white pawn heading for rank 8) leaves the position as it is and records the
  pending promotion; a click on any cell outside the legal destinations leaves the
  position as it is.
\<close>

theorem click_with_selection:
  assumes sel: "selectedSquare s = Some sel" "sel \<noteq> []"
      and agree: "engine_agrees R (game s) sel sq"
  shows "(\<not> manualGameOver s \<and> \<not> game_over R (game s) \<and> turn R (game s) = White \<and>
          sq \<in> set (legal_destinations R (game s) sel) \<and>
          \<not> shouldPromptPromotion R (game s) sel sq White \<longrightarrow>
            move R (game s) \<lparr>mv_from = sel, mv_to = sq, mv_promotion = Some ''q''\<rparr>
              = Some (game (onSquareClick R sq s)) \<and>
            turn R (game (onSquareClick R sq s)) = Black) \<and>
         (\<not> manualGameOver s \<and> \<not> game_over R (game s) \<and> turn R (game s) = White \<and>
          sq \<in> set (legal_destinations R (game s) sel) \<and>
          shouldPromptPromotion R (game s) sel sq White \<longrightarrow>
            game (onSquareClick R sq s) = game s \<and>
            pendingPromotion (onSquareClick R sq s)
              = Some \<lparr>pp_from = sel, pp_to = sq, pp_color = White\<rparr>) \<and>
         (sq \<notin> set (legal_destinations R (game s) sel) \<longrightarrow>
            game (onSquareClick R sq s) = game s)"
proof (intro conjI impI)
  assume a: "\<not> manualGameOver s \<and> \<not> game_over R (game s) \<and> turn R (game s) = White \<and>
          sq \<in> set (legal_destinations R (game s) sel) \<and>
          \<not> shouldPromptPromotion R (game s) sel sq White"
  with agree obtain g' where
    g': "move R (game s) \<lparr>mv_from = sel, mv_to = sq, mv_promotion = Some ''q''\<rparr> = Some g'"
        "turn R g' = Black" and nw: "\<not> is_white (get R (game s) sq)"
    by (auto simp: engine_agrees_def split: option.splits)
  from a sel nw have "game (onSquareClick R sq s) =
           (case move R (game s) \<lparr>mv_from = sel, mv_to = sq, mv_promotion = Some ''q''\<rparr> of
              None \<Rightarrow> game s | Some g' \<Rightarrow> g')"
    by (intro move_click) auto
  with g' show "move R (game s) \<lparr>mv_from = sel, mv_to = sq, mv_promotion = Some ''q''\<rparr>
              = Some (game (onSquareClick R sq s))"
     and "turn R (game (onSquareClick R sq s)) = Black"
    by simp_all
next
  assume a: "\<not> manualGameOver s \<and> \<not> game_over R (game s) \<and> turn R (game s) = White \<and>
          sq \<in> set (legal_destinations R (game s) sel) \<and>
          shouldPromptPromotion R (game s) sel sq White"
  with agree have nw: "\<not> is_white (get R (game s) sq)"
    by (auto simp: engine_agrees_def)
  from a sel nw have "onSquareClick R sq s =
           s\<lparr>pendingPromotion := Some \<lparr>pp_from = sel, pp_to = sq, pp_color = White\<rparr>,
             modalOpen := True\<rparr>"
    by (intro gate_click) auto
  then show "game (onSquareClick R sq s) = game s"
    and "pendingPromotion (onSquareClick R sq s)
              = Some \<lparr>pp_from = sel, pp_to = sq, pp_color = White\<rparr>"
    by simp_all
next
  assume out: "sq \<notin> set (legal_destinations R (game s) sel)"
  with agree have rej:
    "move R (game s) \<lparr>mv_from = sel, mv_to = sq, mv_promotion = Some ''q''\<rparr> = None"
    by (simp add: engine_agrees_def)
  show "game (onSquareClick R sq s) = game s"
  proof (cases "manualGameOver s \<or> game_over R (game s) \<or> turn R (game s) \<noteq> White")
    case True
    then show ?thesis by (simp add: onSquareClick_blocked)
  next
    case live: False
    show ?thesis
    proof (cases "is_white (get R (game s) sq) \<and> sq \<noteq> sel")
      case True
      with sel show ?thesis by (intro reselect_click) auto
    next
      case nre: False
      show ?thesis
      proof (cases "shouldPromptPromotion R (game s) sel sq White")
        case True
        with sel show ?thesis by (intro gate_never_moves) auto
      next
        case False
        with live nre sel have "game (onSquareClick R sq s) =
           (case move R (game s) \<lparr>mv_from = sel, mv_to = sq, mv_promotion = Some ''q''\<rparr> of
              None \<Rightarrow> game s | Some g' \<Rightarrow> g')"
          by (intro move_click) auto
        with rej show ?thesis by simp
      qed
    qed
  qed
qed

theorem click_with_selection_witness:
  "selectedSquare h2_selected = Some ''h2'' \<and>
   engine_agrees chess_a (game h2_selected) ''h2'' ''h3'' \<and>
   ''h3'' \<in> set (legal_destinations chess_a (game h2_selected) ''h2'') \<and>
   move chess_a (game h2_selected) \<lparr>mv_from = ''h2'', mv_to = ''h3'', mv_promotion = Some ''q''\<rparr>
     = Some (game (onSquareClick chess_a ''h3'' h2_selected)) \<and>
   turn chess_a (game h2_selected) = White \<and>
   turn chess_a (game (onSquareClick chess_a ''h3'' h2_selected)) = Black \<and>
   engine_agrees chess_a (game h2_selected) ''h2'' ''h5'' \<and>
   ''h5'' \<notin> set (legal_destinations chess_a (game h2_selected) ''h2'') \<and>
   game (onSquareClick chess_a ''h5'' h2_selected) = game h2_selected \<and>
   selectedSquare a7_selected = Some ''a7'' \<and>
   engine_agrees chess_a (game a7_selected) ''a7'' ''a8'' \<and>
   ''a8'' \<in> set (legal_destinations chess_a (game a7_selected) ''a7'') \<and>
   shouldPromptPromotion chess_a (game a7_selected) ''a7'' ''a8'' White \<and>
   game (onSquareClick chess_a ''a8'' a7_selected) = game a7_selected \<and>
   pendingPromotion (onSquareClick chess_a ''a8'' a7_selected)
     = Some \<lparr>pp_from = ''a7'', pp_to = ''a8'', pp_color = White\<rparr>"
proof -
  have sel: "selectedSquare h2_selected = Some ''h2''" "''h2'' \<noteq> []"
    by code_simp+
  have live: "\<not> manualGameOver h2_selected" "\<not> game_over chess_a (game h2_selected)"
      "turn chess_a (game h2_selected) = White"
    by code_simp+
  have h3: "engine_agrees chess_a (game h2_selected) ''h2'' ''h3''"
      "''h3'' \<in> set (legal_destinations chess_a (game h2_selected) ''h2'')"
      "\<not> shouldPromptPromotion chess_a (game h2_selected) ''h2'' ''h3'' White"
    by code_simp+
  have h5: "engine_agrees chess_a (game h2_selected) ''h2'' ''h5''"
      "''h5'' \<notin> set (legal_destinations chess_a (game h2_selected) ''h2'')"
    by code_simp+
  have sel': "selectedSquare a7_selected = Some ''a7''" "''a7'' \<noteq> []"
    by code_simp+
  have live': "\<not> manualGameOver a7_selected" "\<not> game_over chess_a (game a7_selected)"
      "turn chess_a (game a7_selected) = White"
    by code_simp+
  have a8: "engine_agrees chess_a (game a7_selected) ''a7'' ''a8''"
      "''a8'' \<in> set (legal_destinations chess_a (game a7_selected) ''a7'')"
      "shouldPromptPromotion chess_a (game a7_selected) ''a7'' ''a8'' White"
    by code_simp+
  note applied = click_with_selection [OF sel h3(1)]
  note outside = click_with_selection [OF sel h5(1)]
  note gated = click_with_selection [OF sel' a8(1)]
  from applied live h3 have
    "move chess_a (game h2_selected) \<lparr>mv_from = ''h2'', mv_to = ''h3'', mv_promotion = Some ''q''\<rparr>
       = Some (game (onSquareClick chess_a ''h3'' h2_selected))"
    "turn chess_a (game (onSquareClick chess_a ''h3'' h2_selected)) = Black"
    by blast+
  moreover from outside h5 have "game (onSquareClick chess_a ''h5'' h2_selected) = game h2_selected"
    by blast
  moreover from gated live' a8 have
    "game (onSquareClick chess_a ''a8'' a7_selected) = game a7_selected"
    "pendingPromotion (onSquareClick chess_a ''a8'' a7_selected)
       = Some \<lparr>pp_from = ''a7'', pp_to = ''a8'', pp_color = White\<rparr>"
    by blast+
  ultimately show ?thesis
    using sel sel' live live' h3 h5 a8 by blast
qed

text \<open>
  Claim C3, as stated, fails. The white pawn on a7 is selected, a8 is one of its legal
  destinations, it is White's turn and the game runs; the click on a8 leaves the
  position unchanged and White to move, because the move waits in the promotion modal.
\<close>

theorem legal_promotion_click_not_applied:
  "selectedSquare a7_selected = Some ''a7'' \<and>
   get chess_a (game a7_selected) ''a7'' = Some \<lparr>p_type = ''p'', p_color = White\<rparr> \<and>
   \<not> game_over chess_a (game a7_selected) \<and>
   turn chess_a (game a7_selected) = White \<and>
   ''a8'' \<in> set (legal_destinations chess_a (game a7_selected) ''a7'') \<and>
   game (onSquareClick chess_a ''a8'' a7_selected) = game a7_selected \<and>
   turn chess_a (game (onSquareClick chess_a ''a8'' a7_selected)) = White"
  by code_simp

subsection \<open>The promotion gate\<close>

text \<open>
  Claim C4, as stated, fails: the position does not stay unchanged while the promotion is
  pending. After the clicks a7 and a8 the promotion a7-a8 is pending and the modal is
  open; the clicks h2 and h3 then play the pawn move h2-h3, and the promotion is still
  pending and the modal still open.
\<close>

theorem move_played_while_promotion_pending:
  "pendingPromotion a8_pending
     = Some \<lparr>pp_from = ''a7'', pp_to = ''a8'', pp_color = White\<rparr> \<and>
   modalOpen a8_pending \<and>
   game a8_pending = pos_a \<and>
   pendingPromotion (clicks chess_a [''h2'', ''h3''] a8_pending)
     = Some \<lparr>pp_from = ''a7'', pp_to = ''a8'', pp_color = White\<rparr> \<and>
   modalOpen (clicks chess_a [''h2'', ''h3''] a8_pending) \<and>
   game (clicks chess_a [''h2'', ''h3''] a8_pending) = after_white ''h2'' ''p'' ''h3'' \<and>
   after_white ''h2'' ''p'' ''h3'' \<noteq> pos_a"
  by code_simp

text \<open>
  Claim C4, amended. With a white pawn selected, a click on a cell of rank 8 never changes
  the position; on White's turn in a running game (the cell not holding another white
  piece, which would be a reselection) the click records the pending promotion and opens
  the modal, and nothing else changes: the pawn's move is not submitted by the click. A
  click on a button of the modal submits the pending move with the chosen piece: the
  position becomes the one the rules engine answers, or stays when the engine rejects the
  move; in both cases the pending promotion is discarded and the modal closed.
\<close>

theorem promotion_routed_through_modal:
  "(selectedSquare s = Some sel \<and> get R (game s) sel = Some p \<and> p_type p = ''p'' \<and>
    p_color p = White \<and> char_at sq 1 = Some CHR ''8'' \<longrightarrow>
      game (onSquareClick R sq s) = game s) \<and>
   (\<not> manualGameOver s \<and> \<not> game_over R (game s) \<and> turn R (game s) = White \<and>
    selectedSquare s = Some sel \<and> sel \<noteq> [] \<and>
    get R (game s) sel = Some p \<and> p_type p = ''p'' \<and> p_color p = White \<and>
    char_at sq 1 = Some CHR ''8'' \<and> \<not> (is_white (get R (game s) sq) \<and> sq \<noteq> sel) \<longrightarrow>
      onSquareClick R sq s =
        s\<lparr>pendingPromotion := Some \<lparr>pp_from = sel, pp_to = sq, pp_color = White\<rparr>,
          modalOpen := True\<rparr>) \<and>
   (pendingPromotion s = Some pd \<longrightarrow>
      game (promotionClick R (Button choice) s) =
        (case move R (game s)
                \<lparr>mv_from = pp_from pd, mv_to = pp_to pd, mv_promotion = choice\<rparr> of
           Some g' \<Rightarrow> g' | None \<Rightarrow> game s) \<and>
      pendingPromotion (promotionClick R (Button choice) s) = None \<and>
      \<not> modalOpen (promotionClick R (Button choice) s))"
proof (intro conjI impI)
  assume "selectedSquare s = Some sel \<and> get R (game s) sel = Some p \<and> p_type p = ''p'' \<and>
    p_color p = White \<and> char_at sq 1 = Some CHR ''8''"
  then show "game (onSquareClick R sq s) = game s"
    by (intro gate_never_moves [of s sel]) (auto simp: shouldPromptPromotion_White)
next
  assume "\<not> manualGameOver s \<and> \<not> game_over R (game s) \<and> turn R (game s) = White \<and>
    selectedSquare s = Some sel \<and> sel \<noteq> [] \<and>
    get R (game s) sel = Some p \<and> p_type p = ''p'' \<and> p_color p = White \<and>
    char_at sq 1 = Some CHR ''8'' \<and> \<not> (is_white (get R (game s) sq) \<and> sq \<noteq> sel)"
  then show "onSquareClick R sq s =
        s\<lparr>pendingPromotion := Some \<lparr>pp_from = sel, pp_to = sq, pp_color = White\<rparr>,
          modalOpen := True\<rparr>"
    by (intro gate_click) (auto simp: shouldPromptPromotion_White)
next
  assume pd: "pendingPromotion s = Some pd"
  then show "game (promotionClick R (Button choice) s) =
        (case move R (game s)
                \<lparr>mv_from = pp_from pd, mv_to = pp_to pd, mv_promotion = choice\<rparr> of
           Some g' \<Rightarrow> g' | None \<Rightarrow> game s)"
    by (simp add: promotionClick_def renderPieces_def closePromotionModal_def
          split: option.splits)
  from pd show "pendingPromotion (promotionClick R (Button choice) s) = None"
    by (simp add: promotionClick_def renderPieces_def closePromotionModal_def
          syncAfterHumanMove_def updateStatus_def Let_def split: option.splits)
  from pd show "\<not> modalOpen (promotionClick R (Button choice) s)"
    by (simp add: promotionClick_def renderPieces_def closePromotionModal_def
          syncAfterHumanMove_def updateStatus_def Let_def split: option.splits)
qed

theorem promotion_routed_through_modal_witness:
  "selectedSquare a7_selected = Some ''a7'' \<and>
   get chess_a (game a7_selected) ''a7'' = Some \<lparr>p_type = ''p'', p_color = White\<rparr> \<and>
   char_at ''a8'' 1 = Some CHR ''8'' \<and>
   a8_pending =
     a7_selected\<lparr>pendingPromotion := Some \<lparr>pp_from = ''a7'', pp_to = ''a8'', pp_color = White\<rparr>,
                 modalOpen := True\<rparr> \<and>
   game a8_pending = game a7_selected \<and>
   game (promotionClick chess_a (Button (Some ''r'')) a8_pending) = pos_rook \<and>
   get chess_a pos_rook ''a8'' = Some \<lparr>p_type = ''r'', p_color = White\<rparr> \<and>
   pendingPromotion (promotionClick chess_a (Button (Some ''r'')) a8_pending) = None \<and>
   \<not> modalOpen (promotionClick chess_a (Button (Some ''r'')) a8_pending)"
proof -
  have pre: "\<not> manualGameOver a7_selected" "\<not> game_over chess_a (game a7_selected)"
      "turn chess_a (game a7_selected) = White" "selectedSquare a7_selected = Some ''a7''"
      "''a7'' \<noteq> []"
      "get chess_a (game a7_selected) ''a7'' = Some \<lparr>p_type = ''p'', p_color = White\<rparr>"
      "p_type \<lparr>p_type = ''p'', p_color = White\<rparr> = ''p''"
      "p_color \<lparr>p_type = ''p'', p_color = White\<rparr> = White"
      "char_at ''a8'' 1 = Some CHR ''8''"
      "\<not> (is_white (get chess_a (game a7_selected) ''a8'') \<and> ''a8'' \<noteq> ''a7'')"
    by code_simp+
  have pend: "pendingPromotion a8_pending
                = Some \<lparr>pp_from = ''a7'', pp_to = ''a8'', pp_color = White\<rparr>"
    by code_simp
  have rook: "move chess_a (game a8_pending)
                \<lparr>mv_from = pp_from \<lparr>pp_from = ''a7'', pp_to = ''a8'', pp_color = White\<rparr>,
                 mv_to = pp_to \<lparr>pp_from = ''a7'', pp_to = ''a8'', pp_color = White\<rparr>,
                 mv_promotion = Some ''r''\<rparr> = Some pos_rook"
      "get chess_a pos_rook ''a8'' = Some \<lparr>p_type = ''r'', p_color = White\<rparr>"
    by code_simp+
  note routed = promotion_routed_through_modal [where s = a7_selected and R = chess_a and sel = "''a7''"
      and sq = "''a8''" and p = "\<lparr>p_type = ''p'', p_color = White\<rparr>"]
  note chosen = promotion_routed_through_modal [where s = a8_pending and R = chess_a and choice = "Some ''r''"
      and pd = "\<lparr>pp_from = ''a7'', pp_to = ''a8'', pp_color = White\<rparr>"]
  from routed pre have opened: "a8_pending =
     a7_selected\<lparr>pendingPromotion := Some \<lparr>pp_from = ''a7'', pp_to = ''a8'', pp_color = White\<rparr>,
                 modalOpen := True\<rparr>"
    unfolding a8_pending_def by blast
  have same: "game a8_pending = game a7_selected"
    by (subst opened) simp
  from chosen pend rook have
    "game (promotionClick chess_a (Button (Some ''r'')) a8_pending) = pos_rook"
    "pendingPromotion (promotionClick chess_a (Button (Some ''r'')) a8_pending) = None"
    "\<not> modalOpen (promotionClick chess_a (Button (Some ''r'')) a8_pending)"
    by simp_all
  with pre opened same rook show ?thesis
    by blast
qed

text \<open>
  Claim C10. The gate looks at the piece on the source cell and at the rank of the
  destination only, and it is indifferent to what the rules engine accepts or lists. So
  on White's turn a click that attempts to move a selected white pawn to a cell of
  rank 8 opens the modal whether the move is legal or not. The rules engine sees the move
  only when a button of the modal is clicked; if it rejects the move, the position stays,
  the pending promotion is discarded and the modal closed.
\<close>

theorem promotion_gate_ignores_legality:
  "(shouldPromptPromotion R g frm dst White \<longleftrightarrow>
      (\<exists>p. get R g frm = Some p \<and> p_type p = ''p'' \<and> p_color p = White) \<and>
      char_at dst 1 = Some CHR ''8'') \<and>
   shouldPromptPromotion (R\<lparr>move := accept', moves := listing', moves_sq := listing_sq'\<rparr>)
      g frm dst c = shouldPromptPromotion R g frm dst c \<and>
   (\<not> manualGameOver s \<and> \<not> game_over R (game s) \<and> turn R (game s) = White \<and>
    selectedSquare s = Some sel \<and> sel \<noteq> [] \<and>
    shouldPromptPromotion R (game s) sel sq White \<and>
    \<not> (is_white (get R (game s) sq) \<and> sq \<noteq> sel) \<longrightarrow>
      modalOpen (onSquareClick R sq s) \<and>
      pendingPromotion (onSquareClick R sq s)
        = Some \<lparr>pp_from = sel, pp_to = sq, pp_color = White\<rparr> \<and>
      game (onSquareClick R sq s) = game s) \<and>
   (pendingPromotion s = Some pd \<and>
    move R (game s) \<lparr>mv_from = pp_from pd, mv_to = pp_to pd, mv_promotion = choice\<rparr> = None \<longrightarrow>
      game (promotionClick R (Button choice) s) = game s \<and>
      pendingPromotion (promotionClick R (Button choice) s) = None \<and>
      \<not> modalOpen (promotionClick R (Button choice) s))"
proof (intro conjI impI)
  show "shouldPromptPromotion R g frm dst White \<longleftrightarrow>
      (\<exists>p. get R g frm = Some p \<and> p_type p = ''p'' \<and> p_color p = White) \<and>
      char_at dst 1 = Some CHR ''8''"
    by (rule shouldPromptPromotion_White)
  show "shouldPromptPromotion (R\<lparr>move := accept', moves := listing', moves_sq := listing_sq'\<rparr>)
      g frm dst c = shouldPromptPromotion R g frm dst c"
    by (simp add: shouldPromptPromotion_def)
next
  assume "\<not> manualGameOver s \<and> \<not> game_over R (game s) \<and> turn R (game s) = White \<and>
    selectedSquare s = Some sel \<and> sel \<noteq> [] \<and>
    shouldPromptPromotion R (game s) sel sq White \<and>
    \<not> (is_white (get R (game s) sq) \<and> sq \<noteq> sel)"
  then have "onSquareClick R sq s =
           s\<lparr>pendingPromotion := Some \<lparr>pp_from = sel, pp_to = sq, pp_color = White\<rparr>,
             modalOpen := True\<rparr>"
    by (intro gate_click) auto
  then show "modalOpen (onSquareClick R sq s)"
    and "pendingPromotion (onSquareClick R sq s)
        = Some \<lparr>pp_from = sel, pp_to = sq, pp_color = White\<rparr>"
    and "game (onSquareClick R sq s) = game s"
    by simp_all
next
  assume rej: "pendingPromotion s = Some pd \<and>
    move R (game s) \<lparr>mv_from = pp_from pd, mv_to = pp_to pd, mv_promotion = choice\<rparr> = None"
  then show "game (promotionClick R (Button choice) s) = game s"
    by (simp add: promotionClick_def renderPieces_def closePromotionModal_def)
  from rej show "pendingPromotion (promotionClick R (Button choice) s) = None"
    by (simp add: promotionClick_def renderPieces_def closePromotionModal_def
          updateStatus_def Let_def)
  from rej show "\<not> modalOpen (promotionClick R (Button choice) s)"
    by (simp add: promotionClick_def renderPieces_def closePromotionModal_def
          updateStatus_def Let_def)
qed

theorem promotion_gate_ignores_legality_witness:
  "selectedSquare h2_selected = Some ''h2'' \<and>
   shouldPromptPromotion chess_a (game h2_selected) ''h2'' ''h8'' White \<and>
   ''h8'' \<notin> set (legal_destinations chess_a (game h2_selected) ''h2'') \<and>
   modalOpen h8_pending \<and>
   pendingPromotion h8_pending = Some \<lparr>pp_from = ''h2'', pp_to = ''h8'', pp_color = White\<rparr> \<and>
   game h8_pending = game h2_selected \<and>
   move chess_a (game h8_pending) \<lparr>mv_from = ''h2'', mv_to = ''h8'', mv_promotion = Some ''q''\<rparr>
     = None \<and>
   game (promotionClick chess_a (Button (Some ''q'')) h8_pending) = game h8_pending \<and>
   pendingPromotion (promotionClick chess_a (Button (Some ''q'')) h8_pending) = None \<and>
   \<not> modalOpen (promotionClick chess_a (Button (Some ''q'')) h8_pending)"
proof -
  have pre: "\<not> manualGameOver h2_selected" "\<not> game_over chess_a (game h2_selected)"
      "turn chess_a (game h2_selected) = White" "selectedSquare h2_selected = Some ''h2''"
      "''h2'' \<noteq> []"
      "shouldPromptPromotion chess_a (game h2_selected) ''h2'' ''h8'' White"
      "\<not> (is_white (get chess_a (game h2_selected) ''h8'') \<and> ''h8'' \<noteq> ''h2'')"
      "''h8'' \<notin> set (legal_destinations chess_a (game h2_selected) ''h2'')"
    by code_simp+
  have pend: "pendingPromotion h8_pending
                = Some \<lparr>pp_from = ''h2'', pp_to = ''h8'', pp_color = White\<rparr>"
    by code_simp
  have rej: "move chess_a (game h8_pending)
               \<lparr>mv_from = ''h2'', mv_to = ''h8'', mv_promotion = Some ''q''\<rparr> = None"
    by code_simp
  note opened = promotion_gate_ignores_legality [where s = h2_selected and R = chess_a and sel = "''h2''" and sq = "''h8''"]
  note refused = promotion_gate_ignores_legality [where s = h8_pending and R = chess_a and choice = "Some ''q''"
      and pd = "\<lparr>pp_from = ''h2'', pp_to = ''h8'', pp_color = White\<rparr>"]
  from opened pre have
    "modalOpen h8_pending" "game h8_pending = game h2_selected"
    unfolding h8_pending_def by blast+
  moreover from refused pend rej have
    "game (promotionClick chess_a (Button (Some ''q'')) h8_pending) = game h8_pending"
    "pendingPromotion (promotionClick chess_a (Button (Some ''q'')) h8_pending) = None"
    "\<not> modalOpen (promotionClick chess_a (Button (Some ''q'')) h8_pending)"
    by simp_all
  ultimately show ?thesis
    using pre pend rej by blast
qed

subsection \<open>The status line\<close>

text \<open>
  Claim C5. When the game is over, \<open>updateStatus\<close> writes the label of the first
  condition that holds in the order checkmate, stalemate, threefold repetition,
  insufficient material, any other draw, and \<^verbatim>\<open>Game Over.\<close> when none holds; a later
  condition that holds as well does not change the label. When the game runs, the status
  names the side to move and adds the check notice for that side when it is in check.
  (\<open>manualGameOver\<close>, which makes \<open>updateStatus\<close> return at once, is never set by
  the script.)
\<close>

theorem status_label_precedence:
  assumes "\<not> manualGameOver s"
  shows "(game_over R (game s) \<and> in_checkmate R (game s) \<longrightarrow>
            statusText (updateStatus R s) =
              ''Checkmate. '' @ (if turn R (game s) = White then ''Mahmoud'' else ''You'') @ '' won!'') \<and>
         (game_over R (game s) \<and> \<not> in_checkmate R (game s) \<and> in_stalemate R (game s) \<longrightarrow>
            statusText (updateStatus R s) = ''Stalemate. Draw!'') \<and>
         (game_over R (game s) \<and> \<not> in_checkmate R (game s) \<and> \<not> in_stalemate R (game s) \<and>
          in_threefold_repetition R (game s) \<longrightarrow>
            statusText (updateStatus R s) = ''Threefold repetition. Draw!'') \<and>
         (game_over R (game s) \<and> \<not> in_checkmate R (game s) \<and> \<not> in_stalemate R (game s) \<and>
          \<not> in_threefold_repetition R (game s) \<and> insufficient_material R (game s) \<longrightarrow>
            statusText (updateStatus R s) = ''Insufficient material. Draw!'') \<and>
         (game_over R (game s) \<and> \<not> in_checkmate R (game s) \<and> \<not> in_stalemate R (game s) \<and>
          \<not> in_threefold_repetition R (game s) \<and> \<not> insufficient_material R (game s) \<and>
          in_draw R (game s) \<longrightarrow>
            statusText (updateStatus R s) = ''50-move rule. Draw!'') \<and>
         (game_over R (game s) \<and> \<not> in_checkmate R (game s) \<and> \<not> in_stalemate R (game s) \<and>
          \<not> in_threefold_repetition R (game s) \<and> \<not> insufficient_material R (game s) \<and>
          \<not> in_draw R (game s) \<longrightarrow>
            statusText (updateStatus R s) = ''Game Over.'') \<and>
         (\<not> game_over R (game s) \<longrightarrow>
            statusText (updateStatus R s) =
              (if turn R (game s) = White then ''You'' else ''Mahmoud'') @ '' to move.'' @
              (if in_check R (game s)
               then '' '' @ (if turn R (game s) = White then ''You are in check!''
                             else ''Mahmoud is in check!'')
               else []))"
  using assms by (simp add: updateStatus_def terminal_label_def Let_def)

theorem status_label_precedence_witness:
  "\<not> manualGameOver (fresh pos_mate) \<and>
   game_over chess_a pos_mate \<and> in_checkmate chess_a pos_mate \<and>
   statusText (updateStatus chess_a (fresh pos_mate)) = ''Checkmate. Mahmoud won!'' \<and>
   \<not> manualGameOver (fresh pos_stale) \<and>
   game_over chess_a pos_stale \<and> \<not> in_checkmate chess_a pos_stale \<and>
   in_stalemate chess_a pos_stale \<and> insufficient_material chess_a pos_stale \<and>
   statusText (updateStatus chess_a (fresh pos_stale)) = ''Stalemate. Draw!'' \<and>
   \<not> manualGameOver (fresh pos_rook) \<and>
   \<not> game_over chess_a pos_rook \<and> in_check chess_a pos_rook \<and>
   statusText (updateStatus chess_a (fresh pos_rook)) = ''Mahmoud to move. Mahmoud is in check!''"
proof -
  have mate: "\<not> manualGameOver (fresh pos_mate)" "game_over chess_a (game (fresh pos_mate))"
      "in_checkmate chess_a (game (fresh pos_mate))" "turn chess_a (game (fresh pos_mate)) = White"
      "game (fresh pos_mate) = pos_mate"
    by code_simp+
  have stale: "\<not> manualGameOver (fresh pos_stale)" "game_over chess_a (game (fresh pos_stale))"
      "\<not> in_checkmate chess_a (game (fresh pos_stale))" "in_stalemate chess_a (game (fresh pos_stale))"
      "insufficient_material chess_a (game (fresh pos_stale))"
      "game (fresh pos_stale) = pos_stale"
    by code_simp+
  have rook: "\<not> manualGameOver (fresh pos_rook)" "\<not> game_over chess_a (game (fresh pos_rook))"
      "in_check chess_a (game (fresh pos_rook))" "turn chess_a (game (fresh pos_rook)) = Black"
      "game (fresh pos_rook) = pos_rook"
    by code_simp+
  from status_label_precedence [OF mate(1), of chess_a] mate
  have "statusText (updateStatus chess_a (fresh pos_mate)) = ''Checkmate. Mahmoud won!''"
    by simp
  moreover from status_label_precedence [OF stale(1), of chess_a] stale
  have "statusText (updateStatus chess_a (fresh pos_stale)) = ''Stalemate. Draw!''"
    by simp
  moreover from status_label_precedence [OF rook(1), of chess_a] rook
  have "statusText (updateStatus chess_a (fresh pos_rook)) = ''Mahmoud to move. Mahmoud is in check!''"
    by simp
  ultimately show ?thesis
    using mate stale rook by simp
qed

subsection \<open>Rounding to a double\<close>

declare up.simps [simp del] down.simps [simp del]

lemma pow2_powr: "pow2 e = 2 powr (of_int e)"
proof (cases "0 \<le> e")
  case True
  then have "2 powr (of_int e) = (2::real) ^ nat e"
    by (metis of_int_of_nat_eq nat_0_le powr_realpow zero_less_numeral of_int_of_nat_eq)
  with True show ?thesis by (simp add: pow2_def)
next
  case False
  then have "of_int e = - real (nat (- e))" by simp
  then have "2 powr (of_int e) = 1 / (2::real) ^ nat (- e)"
    by (simp add: powr_minus powr_realpow divide_inverse del: of_nat_nat)
  with False show ?thesis by (simp add: pow2_def)
qed

lemma pow2_pos [simp]: "0 < pow2 e"
  by (simp add: pow2_powr)

lemma pow2_nonneg [simp]: "0 \<le> pow2 e"
  by (simp add: pow2_powr)

lemma pow2_add: "pow2 (a + b) = pow2 a * pow2 b"
  by (simp add: pow2_powr powr_add)

lemma pow2_mono: "a \<le> b \<Longrightarrow> pow2 a \<le> pow2 b"
  by (simp add: pow2_powr)

lemma pow2_less: "pow2 a < pow2 b \<longleftrightarrow> a < b"
  by (simp add: pow2_powr)

lemma pow2_0 [simp]: "pow2 0 = 1"
  by (simp add: pow2_def)

lemma pow2_1 [simp]: "pow2 1 = 2"
  by (simp add: pow2_def)

lemma pow2_Suc: "pow2 (e + 1) = 2 * pow2 e"
  by (simp add: pow2_add)

lemma pow2_inverse: "pow2 (- e) * pow2 e = 1"
  using pow2_add [of "- e" e] by simp

lemma pow2_pred: "pow2 (e - 1) = pow2 e / 2"
  using pow2_Suc [of "e - 1"] by simp

lemma pow2_nat: "0 \<le> e \<Longrightarrow> pow2 e = of_int (2 ^ nat e)"
  by (simp add: pow2_def)

lemma up_spec:
  "1 \<le> x \<Longrightarrow> e \<le> up x e \<and> pow2 (up x e - e) \<le> x \<and> x < pow2 (up x e - e + 1)"
proof (induction x e rule: up.induct)
  case (1 x e)
  show ?case
  proof (cases "x < 2")
    case True
    with "1.prems" show ?thesis
      by (simp add: up.simps [of x e] pow2_Suc)
  next
    case False
    then have "1 \<le> x / 2" by simp
    with "1.IH" False have IH: "e + 1 \<le> up (x / 2) (e + 1)"
        "pow2 (up (x / 2) (e + 1) - (e + 1)) \<le> x / 2"
        "x / 2 < pow2 (up (x / 2) (e + 1) - (e + 1) + 1)"
      by simp_all
    have eq: "up x e = up (x / 2) (e + 1)"
      using False by (simp add: up.simps [of x e])
    have a: "pow2 (up x e - e) = 2 * pow2 (up (x / 2) (e + 1) - (e + 1))"
      using pow2_Suc [of "up (x / 2) (e + 1) - (e + 1)"] by (simp add: eq)
    have b: "pow2 (up x e - e + 1) = 2 * pow2 (up (x / 2) (e + 1) - (e + 1) + 1)"
      using pow2_Suc [of "up (x / 2) (e + 1) - (e + 1) + 1"] by (simp add: eq)
    from IH show ?thesis
      unfolding a b by (simp add: eq)
  qed
qed

lemma down_spec:
  "0 < x \<Longrightarrow> x < 2 \<Longrightarrow> - 1022 \<le> e \<Longrightarrow>
     - 1022 \<le> down x e \<and> down x e \<le> e \<and> x * pow2 (e - down x e) < 2 \<and>
     (1 \<le> x * pow2 (e - down x e) \<or> down x e = - 1022)"
proof (induction x e rule: down.induct)
  case (1 x e)
  show ?case
  proof (cases "1 \<le> x \<or> e \<le> - 1022")
    case True
    with "1.prems" show ?thesis
      by (auto simp: down.simps [of x e])
  next
    case False
    then have stop: "\<not> (1 \<le> x \<or> e \<le> - 1022)" .
    then have pre: "0 < 2 * x" "2 * x < 2" "- 1022 \<le> e - 1"
      using "1.prems" by simp_all
    have eq: "down x e = down (2 * x) (e - 1)"
      using stop by (simp add: down.simps [of x e])
    from "1.IH" [OF stop pre] have IH: "- 1022 \<le> down (2 * x) (e - 1)"
        "down (2 * x) (e - 1) \<le> e - 1"
        "2 * x * pow2 (e - 1 - down (2 * x) (e - 1)) < 2"
        "1 \<le> 2 * x * pow2 (e - 1 - down (2 * x) (e - 1)) \<or> down (2 * x) (e - 1) = - 1022"
      by simp_all
    have p: "pow2 (e - down (2 * x) (e - 1)) = 2 * pow2 (e - 1 - down (2 * x) (e - 1))"
      using pow2_Suc [of "e - 1 - down (2 * x) (e - 1)"] by simp
    from IH show ?thesis
      unfolding eq p by (simp add: mult.assoc mult.left_commute)
  qed
qed

lemma binexp_spec:
  assumes "0 < a"
  shows "- 1022 \<le> binexp a" and "a < pow2 (binexp a + 1)"
    and "pow2 (binexp a) \<le> a \<or> binexp a = - 1022"
proof -
  show "- 1022 \<le> binexp a"
    using up_spec [of a 0] down_spec [of a 0] assms by (auto simp: binexp_def)
  show "a < pow2 (binexp a + 1)"
  proof (cases "1 \<le> a")
    case True
    with up_spec [of a 0] show ?thesis by (simp add: binexp_def)
  next
    case False
    with down_spec [of a 0] assms have "a * pow2 (- down a 0) < 2"
      by simp
    then have "a * pow2 (- down a 0) * pow2 (down a 0) < 2 * pow2 (down a 0)"
      by (rule mult_strict_right_mono) simp
    then have "a < 2 * pow2 (down a 0)"
      by (simp add: mult.assoc pow2_inverse)
    with False show ?thesis
      by (simp add: binexp_def pow2_Suc)
  qed
  show "pow2 (binexp a) \<le> a \<or> binexp a = - 1022"
  proof (cases "1 \<le> a")
    case True
    with up_spec [of a 0] show ?thesis by (simp add: binexp_def)
  next
    case False
    with down_spec [of a 0] assms
    have "1 \<le> a * pow2 (- down a 0) \<or> down a 0 = - 1022"
      by simp
    then show ?thesis
    proof
      assume "1 \<le> a * pow2 (- down a 0)"
      then have "1 * pow2 (down a 0) \<le> a * pow2 (- down a 0) * pow2 (down a 0)"
        by (rule mult_right_mono) simp
      then have "pow2 (down a 0) \<le> a"
        by (simp add: mult.assoc pow2_inverse)
      with False show ?thesis by (simp add: binexp_def)
    next
      assume "down a 0 = - 1022"
      with False show ?thesis by (simp add: binexp_def)
    qed
  qed
qed

lemma round_even_bounds: "y - 1 / 2 \<le> of_int (round_even y)" "of_int (round_even y) \<le> y + 1 / 2"
  unfolding round_even_def Let_def by (auto; linarith)+

lemma round_even_int [simp]: "round_even (of_int k) = k"
  by (simp add: round_even_def)

lemma round_even_ge: "of_int k \<le> y \<Longrightarrow> k \<le> round_even y"
  unfolding round_even_def Let_def by (auto simp: le_floor_iff; linarith)

lemma round_even_le: "y \<le> of_int k \<Longrightarrow> round_even y \<le> k"
proof (cases "y = of_int k")
  case True
  then show ?thesis by simp
next
  case False
  assume "y \<le> of_int k"
  with False have "y < of_int k" by simp
  then have "\<lfloor>y\<rfloor> < k" by (simp add: floor_less_iff)
  then show ?thesis
    unfolding round_even_def Let_def by auto
qed

text \<open>
  Rounding a positive number below \<open>2 ^ 53\<close>: the result is finite, off by at most half
  the spacing of the doubles around the number, and on the same side of every integer.
\<close>

lemma round_to_double_pos:
  assumes "0 < x" "x < pow2 53"
  obtains y where "round_to_double x = Fin y" "0 \<le> y"
    "\<bar>y - x\<bar> \<le> pow2 (binexp x - 53)"
    "\<And>k. of_int k \<le> x \<Longrightarrow> of_int k \<le> y"
    "\<And>k. x \<le> of_int k \<Longrightarrow> y \<le> of_int k"
proof -
  define e where "e = binexp x"
  define q where "q = pow2 (e - 52)"
  define r where "r = round_even (x / q)"
  define y where "y = of_int r * q"
  note b = binexp_spec [OF assms(1), folded e_def]
  have q: "0 < q" by (simp add: q_def)
  have e52: "e \<le> 52"
  proof (rule ccontr)
    assume "\<not> e \<le> 52"
    then have "53 \<le> e" by simp
    then have "pow2 53 \<le> pow2 e" by (rule pow2_mono)
    moreover from \<open>53 \<le> e\<close> b(3) have "pow2 e \<le> x" by auto
    ultimately show False using assms(2) by simp
  qed
  then have "pow2 (52 - e) = of_int (2 ^ nat (52 - e))"
    by (intro pow2_nat) simp
  moreover have "pow2 (52 - e) * q = 1"
    using pow2_inverse [of "e - 52"] by (simp add: q_def)
  ultimately have "of_int (2 ^ nat (52 - e)) * q = 1"
    by simp
  with q have inv: "1 / q = of_int (2 ^ nat (52 - e))"
    by (simp add: field_simps)
  have grid: "of_int k / q = of_int (k * 2 ^ nat (52 - e))" for k
  proof -
    have "of_int k / q = of_int k * (1 / q)" by simp
    also have "\<dots> = of_int (k * 2 ^ nat (52 - e))" unfolding inv by simp
    finally show ?thesis .
  qed
  have half: "q / 2 = pow2 (e - 53)"
    using pow2_pred [of "e - 52"] by (simp add: q_def)
  have lo: "of_int k \<le> y" if "of_int k \<le> x" for k
  proof -
    from that q have "of_int k / q \<le> x / q"
      by (simp add: divide_right_mono)
    then have "k * 2 ^ nat (52 - e) \<le> r"
      unfolding grid r_def by (rule round_even_ge)
    then have "of_int (k * 2 ^ nat (52 - e)) \<le> (of_int r :: real)"
      by (simp only: of_int_le_iff)
    then have "of_int k / q \<le> of_int r"
      by (simp only: grid)
    with q show ?thesis
      by (simp add: y_def field_simps)
  qed
  have hi: "y \<le> of_int k" if "x \<le> of_int k" for k
  proof -
    from that q have "x / q \<le> of_int k / q"
      by (simp add: divide_right_mono)
    then have "r \<le> k * 2 ^ nat (52 - e)"
      unfolding grid r_def by (rule round_even_le)
    then have "(of_int r :: real) \<le> of_int (k * 2 ^ nat (52 - e))"
      by (simp only: of_int_le_iff)
    then have "of_int r \<le> of_int k / q"
      by (simp only: grid)
    with q show ?thesis
      by (simp add: y_def field_simps)
  qed
  have err: "\<bar>y - x\<bar> \<le> pow2 (e - 53)"
  proof -
    from round_even_bounds [of "x / q"]
    have "x / q - 1 / 2 \<le> of_int r" "of_int r \<le> x / q + 1 / 2"
      by (simp_all add: r_def)
    with q have "x - q / 2 \<le> y" "y \<le> x + q / 2"
      by (simp_all add: y_def field_simps)
    then have "\<bar>y - x\<bar> \<le> q / 2"
      by linarith
    then show ?thesis
      by (simp only: half)
  qed
  from lo [of 0] assms(1) have y0: "0 \<le> y" by simp
  from e52 have "\<not> (1024 \<le> e \<or> (e = 1023 \<and> 2 ^ 53 \<le> r))"
    by simp
  with assms(1) have "round_to_double x = Fin y"
    by (simp add: round_to_double_def Let_def y_def r_def q_def e_def)
  with y0 err lo hi show thesis
    by (intro that [of y]) (simp_all add: e_def)
qed

lemma round_to_double_int:
  assumes "0 \<le> k" "k < 2 ^ 53"
  shows "round_to_double (of_int k) = Fin (of_int k)"
proof (cases "k = 0")
  case True
  then show ?thesis by (simp add: round_to_double_def)
next
  case False
  with assms have pos: "0 < (of_int k :: real)" by simp
  have "pow2 53 = of_int (2 ^ nat 53)"
    by (intro pow2_nat) simp
  moreover have "(of_int k :: real) < of_int (2 ^ nat 53)"
    using assms(2) by (simp only: of_int_less_iff) simp
  ultimately have small: "(of_int k :: real) < pow2 53"
    by simp
  obtain y where y: "round_to_double (of_int k) = Fin y"
      "\<And>j. of_int j \<le> (of_int k :: real) \<Longrightarrow> of_int j \<le> y"
      "\<And>j. (of_int k :: real) \<le> of_int j \<Longrightarrow> y \<le> of_int j"
    by (rule round_to_double_pos [OF pos small]) blast
  from y(2) [of k] y(3) [of k] have "y = of_int k" by simp
  with y(1) show ?thesis by simp
qed

lemma half_quantum:
  assumes "0 < x"
  shows "pow2 (binexp x - 53) \<le> x * pow2 (- 53) + pow2 (- 1075)"
proof -
  from binexp_spec(3) [OF assms] show ?thesis
  proof
    assume "pow2 (binexp x) \<le> x"
    then have "pow2 (binexp x) * pow2 (- 53) \<le> x * pow2 (- 53)"
      by (rule mult_right_mono) simp
    moreover have "pow2 (binexp x - 53) = pow2 (binexp x) * pow2 (- 53)"
      using pow2_add [of "binexp x" "- 53"] by simp
    moreover have "0 \<le> pow2 (- 1075)"
      by simp
    ultimately show ?thesis
      by linarith
  next
    assume "binexp x = - 1022"
    then show ?thesis
      using assms by simp
  qed
qed

subsection \<open>The percentages\<close>

declare digits.simps [simp del]

lemma digit_char: "d < 10 \<Longrightarrow> (of_char (char_of (48 + d :: nat)) :: nat) = 48 + d"
  by simp

lemma digits_nonempty: "digits n \<noteq> []"
  by (subst digits.simps) simp

lemma digits_is_digit: "list_all is_digit (digits n)"
proof (induction n rule: digits.induct)
  case (1 n)
  show ?case
  proof (cases "n < 10")
    case True
    then show ?thesis
      by (subst digits.simps) (simp add: is_digit_def digit_char)
  next
    case False
    have "is_digit (char_of (48 + n mod 10))"
      by (simp add: is_digit_def digit_char)
    with 1 False show ?thesis
      by (subst digits.simps) simp
  qed
qed

lemma decimal_value_digits: "decimal_value (digits n) = n"
proof (induction n rule: digits.induct)
  case (1 n)
  show ?case
  proof (cases "n < 10")
    case True
    then show ?thesis
      by (subst digits.simps) (simp add: decimal_value_def digit_char)
  next
    case False
    with 1 have "decimal_value (digits (n div 10)) = n div 10"
      by simp
    moreover have "(of_char (char_of (48 + n mod 10)) :: nat) - 48 = n mod 10"
      by (simp add: digit_char)
    ultimately have "decimal_value (digits (n div 10) @ [char_of (48 + n mod 10)]) = n"
      unfolding decimal_value_def by (simp only: foldl_append foldl.simps) simp
    with False show ?thesis
      by (subst digits.simps) simp
  qed
qed

lemma hd_digits: "0 < n \<Longrightarrow> hd (digits n) \<noteq> CHR ''0''"
proof (induction n rule: digits.induct)
  case (1 n)
  show ?case
  proof (cases "n < 10")
    case True
    have "(of_char (char_of (48 + n)) :: nat) = 48 + n"
      using True by (rule digit_char)
    moreover have "(of_char CHR ''0'' :: nat) = 48"
      by simp
    ultimately have "char_of (48 + n) \<noteq> CHR ''0''"
      using "1.prems" by (metis add_cancel_right_right less_numeral_extra(3))
    with True show ?thesis
      by (subst digits.simps) simp
  next
    case False
    then have "0 < n div 10"
      by simp
    with 1 False have "hd (digits (n div 10)) \<noteq> CHR ''0''"
      by simp
    with False show ?thesis
      by (subst digits.simps) (simp add: digits_nonempty)
  qed
qed

lemma num_text_nat: "0 \<le> w \<Longrightarrow> w \<le> 100 \<Longrightarrow> num_text (Fin (of_int w)) = digits (nat w)"
  by (simp add: num_text_def str_of_int_def)

text \<open>The product \<^verbatim>\<open>prob * 100\<close> for a probability.\<close>

lemma percent_product:
  assumes "0 \<le> p" "p \<le> 1"
  obtains x where "js_mul (Fin p) (Fin 100) = Fin x" "0 \<le> x" "x \<le> 100"
    "\<bar>x - p * 100\<bar> \<le> p * 100 * pow2 (- 53) + pow2 (- 1075)"
proof (cases "p = 0")
  case True
  then have "js_mul (Fin p) (Fin 100) = Fin 0"
    by (simp add: round_to_double_def)
  with True show thesis
    by (intro that [of 0]) simp_all
next
  case False
  with assms have pos: "0 < p * 100"
    by simp
  have "pow2 53 = of_int (2 ^ nat 53)"
    by (intro pow2_nat) simp
  moreover have "p * 100 < of_int (2 ^ nat 53)"
    using assms(2) by simp
  ultimately have small: "p * 100 < pow2 53"
    by simp
  obtain y where y: "round_to_double (p * 100) = Fin y" "0 \<le> y"
      "\<bar>y - p * 100\<bar> \<le> pow2 (binexp (p * 100) - 53)"
      "\<And>k. p * 100 \<le> of_int k \<Longrightarrow> y \<le> of_int k"
    by (rule round_to_double_pos [OF pos small]) blast
  from y(4) [of 100] assms(2) have "y \<le> 100"
    by simp
  moreover from y(3) half_quantum [OF pos]
  have "\<bar>y - p * 100\<bar> \<le> p * 100 * pow2 (- 53) + pow2 (- 1075)"
    by linarith
  ultimately show thesis
    using y(1,2) by (intro that [of y]) simp_all
qed

lemma texts_apply_best_move:
  "whiteProbabilityText (fst (apply_best_move R best s)) = whiteProbabilityText s"
  "blackProbabilityText (fst (apply_best_move R best s)) = blackProbabilityText s"
  "whoIsWinningText (fst (apply_best_move R best s)) = whoIsWinningText s"
  by (simp_all add: apply_best_move_def split: option.splits)

lemma show_probabilities_percent:
  assumes "js_mul prob (Fin 100) = Fin x" "w = \<lfloor>x + 1 / 2\<rfloor>" "0 \<le> w" "w \<le> 100"
  shows "Math_round (Fin x) = Fin (of_int w)"
    and "js_sub (Fin 100) (Fin (of_int w)) = Fin (of_int (100 - w))"
    and "whiteProbabilityText (show_probabilities prob s) = digits (nat w) @ ''%''"
    and "blackProbabilityText (show_probabilities prob s) = digits (nat (100 - w)) @ ''%''"
    and "whoIsWinningText (show_probabilities prob s) =
           (if w = 50 then ''Balanced'' else if 50 < w then ''You'' else ''Mahmoud'')"
proof -
  show r: "Math_round (Fin x) = Fin (of_int w)"
    by (simp add: Math_round_def assms(2))
  have "round_to_double (of_int (100 - w)) = Fin (of_int (100 - w))"
    using assms(3,4) by (intro round_to_double_int) simp_all
  then show b: "js_sub (Fin 100) (Fin (of_int w)) = Fin (of_int (100 - w))"
    by simp
  have tw: "num_text (Fin (of_int w)) = digits (nat w)"
    using assms(3,4) by (rule num_text_nat)
  have tb: "num_text (Fin (of_int (100 - w))) = digits (nat (100 - w))"
    using assms(3,4) by (intro num_text_nat) simp_all
  show "whiteProbabilityText (show_probabilities prob s) = digits (nat w) @ ''%''"
    by (simp add: show_probabilities_def Let_def assms(1) r tw)
  show "blackProbabilityText (show_probabilities prob s) = digits (nat (100 - w)) @ ''%''"
    using tb by (simp add: show_probabilities_def Let_def assms(1) r b del: js_sub.simps)
  have "js_eq (Fin (of_int w)) (Fin 50) \<longleftrightarrow> w = 50"
    unfolding js_eq_def by (simp add: of_int_eq_iff [of w 50, simplified])
  moreover have "js_gt (Fin (of_int w)) (Fin 50) \<longleftrightarrow> 50 < w"
    unfolding js_gt_def by (simp add: of_int_less_iff [of 50 w, simplified])
  ultimately show "whoIsWinningText (show_probabilities prob s) =
           (if w = 50 then ''Balanced'' else if 50 < w then ''You'' else ''Mahmoud'')"
    by (simp add: show_probabilities_def Let_def assms(1) r)
qed

lemma half_product: "js_mul (Fin (1 / 2)) (Fin 100) = Fin 50"
  using round_to_double_int [of 50] by simp

text \<open>
  Claim C6. For a probability \<open>p\<close>, a number from 0 to 1, the script computes
  \<^verbatim>\<open>prob * 100\<close> in double arithmetic: the product \<open>x\<close> is within the rounding error of
  one operation of \<open>p * 100\<close>. \<^verbatim>\<open>Math.round\<close> gives the integer \<open>w\<close> nearest to \<open>x\<close>,
  a tie upwards, from 0 to 100, and \<^verbatim>\<open>100 - wPct\<close> is the integer \<open>b\<close> with
  \<open>w + b = 100\<close>, exactly. The two texts are \<open>w\<close> and \<open>b\<close> in decimal digits, without a
  leading zero, followed by \<^verbatim>\<open>%\<close>; the label reads \<^verbatim>\<open>Balanced\<close> exactly when
  \<open>w = 50\<close>, \<^verbatim>\<open>You\<close> exactly when \<open>w\<close> is above 50 and \<^verbatim>\<open>Mahmoud\<close> exactly when it
  is below. The texts are still these when the \<^verbatim>\<open>try\<close> block is left. For
  \<open>p = 1/2\<close> the texts are \<^verbatim>\<open>50%\<close> and \<^verbatim>\<open>50%\<close> and the label is \<^verbatim>\<open>Balanced\<close>.
\<close>

theorem percentages_sum_to_100:
  assumes "0 \<le> p" and "p \<le> 1"
  shows "\<exists>x w b.
      js_mul (Fin p) (Fin 100) = Fin x \<and>
      \<bar>x - p * 100\<bar> \<le> p * 100 * pow2 (- 53) + pow2 (- 1075) \<and>
      Math_round (Fin x) = Fin (of_int w) \<and>
      of_int w - 1 / 2 \<le> x \<and> x < of_int w + 1 / 2 \<and>
      js_sub (Fin 100) (Fin (of_int w)) = Fin (of_int b) \<and>
      0 \<le> w \<and> 0 \<le> b \<and> w + b = 100 \<and>
      whiteProbabilityText (show_probabilities (Fin p) s) = digits (nat w) @ ''%'' \<and>
      blackProbabilityText (show_probabilities (Fin p) s) = digits (nat b) @ ''%'' \<and>
      list_all is_digit (digits (nat w)) \<and> decimal_value (digits (nat w)) = nat w \<and>
      (0 < w \<longrightarrow> hd (digits (nat w)) \<noteq> CHR ''0'') \<and>
      list_all is_digit (digits (nat b)) \<and> decimal_value (digits (nat b)) = nat b \<and>
      (0 < b \<longrightarrow> hd (digits (nat b)) \<noteq> CHR ''0'') \<and>
      (whoIsWinningText (show_probabilities (Fin p) s) = ''Balanced'' \<longleftrightarrow> w = 50) \<and>
      (whoIsWinningText (show_probabilities (Fin p) s) = ''You'' \<longleftrightarrow> 50 < w) \<and>
      (whoIsWinningText (show_probabilities (Fin p) s) = ''Mahmoud'' \<longleftrightarrow> w < 50) \<and>
      whiteProbabilityText (fst (engine_reply R (Reply \<lparr>r_prob = Fin p, r_best_move = best\<rparr>) s))
        = digits (nat w) @ ''%'' \<and>
      blackProbabilityText (fst (engine_reply R (Reply \<lparr>r_prob = Fin p, r_best_move = best\<rparr>) s))
        = digits (nat b) @ ''%'' \<and>
      js_mul (Fin (1 / 2)) (Fin 100) = Fin 50 \<and>
      Math_round (Fin 50) = Fin 50 \<and>
      whiteProbabilityText (show_probabilities (Fin (1 / 2)) s) = ''50%'' \<and>
      blackProbabilityText (show_probabilities (Fin (1 / 2)) s) = ''50%'' \<and>
      whoIsWinningText (show_probabilities (Fin (1 / 2)) s) = ''Balanced''"
proof -
  obtain x where x: "js_mul (Fin p) (Fin 100) = Fin x" "0 \<le> x" "x \<le> 100"
      "\<bar>x - p * 100\<bar> \<le> p * 100 * pow2 (- 53) + pow2 (- 1075)"
    using assms by (rule percent_product)
  define w where "w = \<lfloor>x + 1 / 2\<rfloor>"
  define b where "b = 100 - w"
  have near: "of_int w - 1 / 2 \<le> x" "x < of_int w + 1 / 2"
    unfolding w_def by linarith+
  have range: "0 \<le> w" "w \<le> 100"
    using x(2,3) unfolding w_def by (simp_all add: le_floor_iff floor_le_iff)
  note sp = show_probabilities_percent [OF x(1) w_def range, folded b_def]
  have b: "0 \<le> b" "w + b = 100"
    using range by (simp_all add: b_def)
  have label:
    "whoIsWinningText (show_probabilities (Fin p) s) = ''Balanced'' \<longleftrightarrow> w = 50"
    "whoIsWinningText (show_probabilities (Fin p) s) = ''You'' \<longleftrightarrow> 50 < w"
    "whoIsWinningText (show_probabilities (Fin p) s) = ''Mahmoud'' \<longleftrightarrow> w < 50"
    by (simp_all add: sp(5))
  have reply:
    "whiteProbabilityText (fst (engine_reply R (Reply \<lparr>r_prob = Fin p, r_best_move = best\<rparr>) s))
       = digits (nat w) @ ''%''"
    "blackProbabilityText (fst (engine_reply R (Reply \<lparr>r_prob = Fin p, r_best_move = best\<rparr>) s))
       = digits (nat b) @ ''%''"
    by (simp_all add: engine_reply_def texts_apply_best_move sp(3,4))
  have lead: "0 < w \<longrightarrow> hd (digits (nat w)) \<noteq> CHR ''0''"
      "0 < b \<longrightarrow> hd (digits (nat b)) \<noteq> CHR ''0''"
    by (simp_all add: hd_digits)
  have fifty: "\<lfloor>(50 :: real) + 1 / 2\<rfloor> = 50" "(0::int) \<le> 50" "(50::int) \<le> 100"
    by simp_all
  note hp = show_probabilities_percent [OF half_product fifty(1) [symmetric] fifty(2,3)]
  have d50: "digits 50 = ''50''"
    by code_simp
  have even: "Math_round (Fin 50) = Fin 50"
    "whiteProbabilityText (show_probabilities (Fin (1 / 2)) s) = ''50%''"
    "blackProbabilityText (show_probabilities (Fin (1 / 2)) s) = ''50%''"
    "whoIsWinningText (show_probabilities (Fin (1 / 2)) s) = ''Balanced''"
    using hp by (simp_all add: d50)
  show ?thesis
    apply (rule exI [where x = x])
    apply (rule exI [where x = w])
    apply (rule exI [where x = b])
    using x(1,4) sp(1,2) near range(1) b sp(3,4) label reply lead even half_product
      digits_is_digit [of "nat w"] digits_is_digit [of "nat b"]
      decimal_value_digits [of "nat w"] decimal_value_digits [of "nat b"]
    apply blast
    done
qed

theorem percentages_sum_to_100_witness:
  "(0 :: real) \<le> 4458563631096791 / 9007199254740992 \<and>
   (4458563631096791 / 9007199254740992 :: real) \<le> 1 \<and>
   js_mul (Fin (4458563631096791 / 9007199254740992)) (Fin 100) = Fin (99 / 2) \<and>
   Math_round (Fin (99 / 2)) = Fin 50 \<and>
   js_sub (Fin 100) (Fin 50) = Fin 50 \<and>
   whiteProbabilityText
     (show_probabilities (Fin (4458563631096791 / 9007199254740992)) (fresh pos_a)) = ''50%'' \<and>
   blackProbabilityText
     (show_probabilities (Fin (4458563631096791 / 9007199254740992)) (fresh pos_a)) = ''50%'' \<and>
   whoIsWinningText
     (show_probabilities (Fin (4458563631096791 / 9007199254740992)) (fresh pos_a)) = ''Balanced''"
proof -
  let ?p = "4458563631096791 / 9007199254740992 :: real"
  have p: "0 \<le> ?p" "?p \<le> 1"
    by simp_all
  have product: "js_mul (Fin ?p) (Fin 100) = Fin (99 / 2)"
    by code_simp
  from percentages_sum_to_100 [OF p, where s = "fresh pos_a"]
  obtain x w b where *:
      "js_mul (Fin ?p) (Fin 100) = Fin x"
      "Math_round (Fin x) = Fin (of_int w)"
      "of_int w - 1 / 2 \<le> x" "x < of_int w + 1 / 2"
      "js_sub (Fin 100) (Fin (of_int w)) = Fin (of_int b)"
      "w + b = 100"
      "whiteProbabilityText (show_probabilities (Fin ?p) (fresh pos_a)) = digits (nat w) @ ''%''"
      "blackProbabilityText (show_probabilities (Fin ?p) (fresh pos_a)) = digits (nat b) @ ''%''"
      "whoIsWinningText (show_probabilities (Fin ?p) (fresh pos_a)) = ''Balanced'' \<longleftrightarrow> w = 50"
    by blast
  from *(1) product have x: "x = 99 / 2"
    by simp
  with *(3,4) have w: "w = 50"
    by linarith
  with *(6) have b: "b = 50"
    by simp
  have d: "digits 50 = ''50''"
    by code_simp
  from * show ?thesis
    unfolding x w b by (simp add: p d)
qed

subsection \<open>The opponent's move\<close>

lemma toLowerCase_Nil [simp]: "toLowerCase [] = []"
  by (simp add: toLowerCase_def)

lemma toLowerCase_ascii:
  assumes "list_all (\<lambda>c. 0 \<le> c \<and> c < 128) v"
  shows "toLowerCase v = map (\<lambda>c. if 65 \<le> c \<and> c \<le> 90 then c + 32 else c) v"
proof -
  from assms have "list_all (\<lambda>c. (0 \<le> c \<and> c < 128) \<or> c = 304) v"
    by (simp add: list_all_iff)
  moreover from assms
  have "concat (map lower_unit v) = map (\<lambda>c. if 65 \<le> c \<and> c \<le> 90 then c + 32 else c) v"
    by (induction v) (auto simp: lower_unit_def)
  ultimately show ?thesis
    by (simp add: toLowerCase_def)
qed

lemma trim_all:
  assumes "list_all P u"
  shows "list_all P (trim u)"
proof -
  have "x \<in> set u" if "x \<in> set (trim u)" for x
  proof -
    from that have "x \<in> set (dropWhile is_space (rev (dropWhile is_space u)))"
      by (simp add: trim_def)
    then have "x \<in> set (rev (dropWhile is_space u))"
      by (rule set_dropWhileD)
    then have "x \<in> set (dropWhile is_space u)"
      by simp
    then show ?thesis
      by (rule set_dropWhileD)
  qed
  with assms show ?thesis
    by (auto simp: list_all_iff)
qed

lemma trim_Nil [simp]: "trim [] = []"
  by (simp add: trim_def)

lemma uciToMove_null: "uciToMove (JStr u) = None \<longleftrightarrow> length (toLowerCase (trim u)) < 4"
  by (cases "u = []") (simp_all add: uciToMove_def Let_def)

lemma uciToMove_parse:
  assumes "4 \<le> length (toLowerCase (trim u))"
  shows "uciToMove (JStr u) =
           Some \<lparr>mv_from = utf8 (take 2 (toLowerCase (trim u))),
                 mv_to = utf8 (take 2 (drop 2 (toLowerCase (trim u)))),
                 mv_promotion =
                   (if 5 \<le> length (toLowerCase (trim u)) \<and>
                       toLowerCase [toLowerCase (trim u) ! 4] \<noteq> []
                    then Some (utf8 (toLowerCase [toLowerCase (trim u) ! 4])) else None)\<rparr>"
proof -
  have "u \<noteq> []"
    using assms by auto
  then show ?thesis
    using assms by (simp add: uciToMove_def Let_def slice_def truthy_def)
qed

lemma ascii_fifth:
  assumes "list_all (\<lambda>c. 0 \<le> c \<and> c < 128) u" "5 \<le> length (trim u)"
  shows "toLowerCase [toLowerCase (trim u) ! 4] = [toLowerCase (trim u) ! 4]"
proof -
  let ?f = "\<lambda>c :: int. if 65 \<le> c \<and> c \<le> 90 then c + 32 else c"
  from assms(1) have t: "list_all (\<lambda>c. 0 \<le> c \<and> c < 128) (trim u)"
    by (rule trim_all)
  then have low: "toLowerCase (trim u) = map ?f (trim u)"
    by (rule toLowerCase_ascii)
  from t assms(2) have "0 \<le> trim u ! 4 \<and> trim u ! 4 < 128"
    by (simp add: list_all_length)
  then have "0 \<le> ?f (trim u ! 4) \<and> ?f (trim u ! 4) < 128"
      "?f (?f (trim u ! 4)) = ?f (trim u ! 4)"
    by auto
  then have "toLowerCase [?f (trim u ! 4)] = [?f (trim u ! 4)]"
    using toLowerCase_ascii [of "[?f (trim u ! 4)]"] by simp
  with assms(2) show ?thesis
    by (simp add: low)
qed

lemma uciToMove_ascii:
  assumes "list_all (\<lambda>c. 0 \<le> c \<and> c < 128) u" "4 \<le> length (trim u)"
  shows "uciToMove (JStr u) =
           Some \<lparr>mv_from = utf8 (take 2 (toLowerCase (trim u))),
                 mv_to = utf8 (take 2 (drop 2 (toLowerCase (trim u)))),
                 mv_promotion = (if 5 \<le> length (trim u)
                                 then Some (utf8 [toLowerCase (trim u) ! 4]) else None)\<rparr>"
proof -
  from assms(1) have "list_all (\<lambda>c. 0 \<le> c \<and> c < 128) (trim u)"
    by (rule trim_all)
  then have len: "length (toLowerCase (trim u)) = length (trim u)"
    by (simp add: toLowerCase_ascii)
  with assms(2) have "4 \<le> length (toLowerCase (trim u))"
    by simp
  note uciToMove_parse [OF this]
  then show ?thesis
    using ascii_fifth [OF assms(1)] by (simp add: len)
qed

lemma game_show_probabilities [simp]: "game (show_probabilities prob s) = game s"
  by (simp add: show_probabilities_def Let_def)

lemma game_engine_begin [simp]: "game (engine_begin s) = game s"
  by (simp add: engine_begin_def)

lemma manual_engine_begin [simp]: "manualGameOver (engine_begin s) = manualGameOver s"
  by (simp add: engine_begin_def)

lemma engine_cycle:
  assumes "\<not> manualGameOver s" "\<not> game_over R (game s)"
  shows "engineEvaluateAndAct R fetchEngineEval rnd s =
           updateStatus R (renderPieces (engine_fallback R rnd
             (case fetchEngineEval of
                None \<Rightarrow> (engine_begin s, False)
              | Some f \<Rightarrow> engine_reply R (f (fen R (game s))) (engine_begin s))))"
  using assms by (simp add: engineEvaluateAndAct_def Let_def)

lemma retry_moves:
  assumes "turn R (game s) = Black" "\<not> game_over R (game s)"
      and "uciToMove best = Some m" "move R (game s) m = None" "truthy (mv_promotion m)"
      and "move R (game s) (m\<lparr>mv_promotion := Some ''q''\<rparr>) = Some g'"
  shows "apply_best_move R best s =
           (s\<lparr>game := g', lastAIMoveUCI := Some (mv_from m @ mv_to m @ ''q'')\<rparr>, True)"
  using assms by (simp add: apply_best_move_def)

lemma rejected_stays:
  assumes "uciToMove best = None \<or>
           (\<exists>m. uciToMove best = Some m \<and> move R (game s) m = None \<and>
                (truthy (mv_promotion m) \<longrightarrow>
                   move R (game s) (m\<lparr>mv_promotion := Some ''q''\<rparr>) = None))"
  shows "apply_best_move R best s = (s, False)"
  using assms by (auto simp: apply_best_move_def)

text \<open>
  Claim C7, as stated, fails. The string of the three code units \<^verbatim>\<open>e\<close>, \<^verbatim>\<open>2\<close> and
  U+0130 has a trimmed form of three characters, shorter than 4; its lower-cased form has
  four code units, because the lower case of U+0130 is the two code units U+0069 and
  U+0307, and the length is tested after the lower-casing (line 264). So \<open>uciToMove\<close>
  does not answer \<^verbatim>\<open>null\<close>: it answers a move from \<^verbatim>\<open>e2\<close>.
\<close>

theorem short_trimmed_form_parsed:
  "length (trim (units ''e2'' @ [304])) = 3 \<and>
   length (toLowerCase (trim (units ''e2'' @ [304]))) = 4 \<and>
   uciToMove (JStr (units ''e2'' @ [304])) =
     Some \<lparr>mv_from = ''e2'', mv_to = utf8 [105, 775], mv_promotion = None\<rparr>"
  by code_simp

text \<open>
  Claim C7, amended. \<open>uciToMove\<close> answers \<^verbatim>\<open>null\<close> for a value that is no string, and
  for a string exactly when its trimmed, lower-cased form has fewer than 4 code units; for
  a string of ASCII characters that form is as long as the trimmed form. Otherwise the
  first two code units of the trimmed, lower-cased string are the source, the next two the
  destination, and the fifth, if there is one, lower-cased again, the promotion; for a
  string of ASCII characters the promotion is the fifth character of the trimmed,
  lower-cased string as it is. On Black's turn, when the rules engine rejects the parsed
  move and a promotion letter was present, the same move is submitted again with the
  promotion \<^verbatim>\<open>'q'\<close> and, if accepted, it is the opponent's move of this cycle; when the
  parse gives \<^verbatim>\<open>null\<close>, or the move is rejected and there is no promotion letter or the
  second submission is rejected as well, the cycle goes on with the random fallback.
\<close>

theorem uci_parse_and_queen_retry:
  "uciToMove JOther = None \<and>
   (uciToMove (JStr u) = None \<longleftrightarrow> length (toLowerCase (trim u)) < 4) \<and>
   (list_all (\<lambda>c. 0 \<le> c \<and> c < 128) u \<longrightarrow> length (toLowerCase (trim u)) = length (trim u)) \<and>
   (4 \<le> length (toLowerCase (trim u)) \<longrightarrow>
      uciToMove (JStr u) =
        Some \<lparr>mv_from = utf8 (take 2 (toLowerCase (trim u))),
              mv_to = utf8 (take 2 (drop 2 (toLowerCase (trim u)))),
              mv_promotion =
                (if 5 \<le> length (toLowerCase (trim u)) \<and>
                    toLowerCase [toLowerCase (trim u) ! 4] \<noteq> []
                 then Some (utf8 (toLowerCase [toLowerCase (trim u) ! 4])) else None)\<rparr>) \<and>
   (list_all (\<lambda>c. 0 \<le> c \<and> c < 128) u \<and> 4 \<le> length (trim u) \<longrightarrow>
      uciToMove (JStr u) =
        Some \<lparr>mv_from = utf8 (take 2 (toLowerCase (trim u))),
              mv_to = utf8 (take 2 (drop 2 (toLowerCase (trim u)))),
              mv_promotion = (if 5 \<le> length (trim u)
                              then Some (utf8 [toLowerCase (trim u) ! 4]) else None)\<rparr>) \<and>
   (\<not> manualGameOver s \<and> \<not> game_over R (game s) \<and> turn R (game s) = Black \<and>
    f (fen R (game s)) = Reply r \<and> uciToMove (r_best_move r) = Some m \<and>
    move R (game s) m = None \<and> truthy (mv_promotion m) \<and>
    move R (game s) (m\<lparr>mv_promotion := Some ''q''\<rparr>) = Some g' \<longrightarrow>
      engineEvaluateAndAct R (Some f) rnd s =
        updateStatus R (renderPieces
          ((show_probabilities (r_prob r) (engine_begin s))
             \<lparr>game := g', lastAIMoveUCI := Some (mv_from m @ mv_to m @ ''q'')\<rparr>))) \<and>
   (\<not> manualGameOver s \<and> \<not> game_over R (game s) \<and> turn R (game s) = Black \<and>
    f (fen R (game s)) = Reply r \<and>
    (uciToMove (r_best_move r) = None \<or>
     (\<exists>m. uciToMove (r_best_move r) = Some m \<and> move R (game s) m = None \<and>
          (truthy (mv_promotion m) \<longrightarrow>
             move R (game s) (m\<lparr>mv_promotion := Some ''q''\<rparr>) = None))) \<longrightarrow>
      engineEvaluateAndAct R (Some f) rnd s =
        updateStatus R (renderPieces
          (random_fallback R rnd (show_probabilities (r_prob r) (engine_begin s)))))"
proof (intro conjI impI)
  show "uciToMove JOther = None"
    by (simp add: uciToMove_def)
  show "uciToMove (JStr u) = None \<longleftrightarrow> length (toLowerCase (trim u)) < 4"
    by (rule uciToMove_null)
  show "length (toLowerCase (trim u)) = length (trim u)" if "list_all (\<lambda>c. 0 \<le> c \<and> c < 128) u"
    using trim_all [OF that] by (simp add: toLowerCase_ascii)
  show "uciToMove (JStr u) =
        Some \<lparr>mv_from = utf8 (take 2 (toLowerCase (trim u))),
              mv_to = utf8 (take 2 (drop 2 (toLowerCase (trim u)))),
              mv_promotion =
                (if 5 \<le> length (toLowerCase (trim u)) \<and>
                    toLowerCase [toLowerCase (trim u) ! 4] \<noteq> []
                 then Some (utf8 (toLowerCase [toLowerCase (trim u) ! 4])) else None)\<rparr>"
    if "4 \<le> length (toLowerCase (trim u))"
    using that by (rule uciToMove_parse)
  show "uciToMove (JStr u) =
        Some \<lparr>mv_from = utf8 (take 2 (toLowerCase (trim u))),
              mv_to = utf8 (take 2 (drop 2 (toLowerCase (trim u)))),
              mv_promotion = (if 5 \<le> length (trim u)
                              then Some (utf8 [toLowerCase (trim u) ! 4]) else None)\<rparr>"
    if "list_all (\<lambda>c. 0 \<le> c \<and> c < 128) u \<and> 4 \<le> length (trim u)"
    using that by (intro uciToMove_ascii) simp_all
next
  assume a: "\<not> manualGameOver s \<and> \<not> game_over R (game s) \<and> turn R (game s) = Black \<and>
    f (fen R (game s)) = Reply r \<and> uciToMove (r_best_move r) = Some m \<and>
    move R (game s) m = None \<and> truthy (mv_promotion m) \<and>
    move R (game s) (m\<lparr>mv_promotion := Some ''q''\<rparr>) = Some g'"
  let ?s1 = "show_probabilities (r_prob r) (engine_begin s)"
  from a have "apply_best_move R (r_best_move r) ?s1 =
           (?s1\<lparr>game := g', lastAIMoveUCI := Some (mv_from m @ mv_to m @ ''q'')\<rparr>, True)"
    by (intro retry_moves) simp_all
  with a show "engineEvaluateAndAct R (Some f) rnd s =
        updateStatus R (renderPieces
          (?s1\<lparr>game := g', lastAIMoveUCI := Some (mv_from m @ mv_to m @ ''q'')\<rparr>))"
    by (simp add: engine_cycle engine_reply_def engine_fallback_def)
next
  assume a: "\<not> manualGameOver s \<and> \<not> game_over R (game s) \<and> turn R (game s) = Black \<and>
    f (fen R (game s)) = Reply r \<and>
    (uciToMove (r_best_move r) = None \<or>
     (\<exists>m. uciToMove (r_best_move r) = Some m \<and> move R (game s) m = None \<and>
          (truthy (mv_promotion m) \<longrightarrow>
             move R (game s) (m\<lparr>mv_promotion := Some ''q''\<rparr>) = None)))"
  let ?s1 = "show_probabilities (r_prob r) (engine_begin s)"
  from a have "apply_best_move R (r_best_move r) ?s1 = (?s1, False)"
    by (intro rejected_stays) simp
  with a show "engineEvaluateAndAct R (Some f) rnd s =
        updateStatus R (renderPieces (random_fallback R rnd ?s1))"
    by (simp add: engine_cycle engine_reply_def engine_fallback_def)
qed

theorem uci_parse_and_queen_retry_witness:
  "uciToMove (JStr (units ''e2'')) = None \<and>
   list_all (\<lambda>c. 0 \<le> c \<and> c < 128) (units '' E2E4 '') \<and>
   length (trim (units '' E2E4 '')) = 4 \<and>
   uciToMove (JStr (units '' E2E4 ''))
     = Some \<lparr>mv_from = ''e2'', mv_to = ''e4'', mv_promotion = None\<rparr> \<and>
   uciToMove (JStr (units ''B2B1X''))
     = Some \<lparr>mv_from = ''b2'', mv_to = ''b1'', mv_promotion = Some ''x''\<rparr> \<and>
   turn chess_a (game (fresh pos_b)) = Black \<and>
   move chess_a (game (fresh pos_b)) \<lparr>mv_from = ''b2'', mv_to = ''b1'', mv_promotion = Some ''x''\<rparr>
     = None \<and>
   move chess_a (game (fresh pos_b)) \<lparr>mv_from = ''b2'', mv_to = ''b1'', mv_promotion = Some ''q''\<rparr>
     = Some (after_black ''b2'' ''q'' ''b1'') \<and>
   engineEvaluateAndAct chess_a (Some retry_reply) (1 / 2) (fresh pos_b) =
     updateStatus chess_a (renderPieces
       ((show_probabilities (Fin (1 / 4)) (engine_begin (fresh pos_b)))
          \<lparr>game := after_black ''b2'' ''q'' ''b1'', lastAIMoveUCI := Some ''b2b1q''\<rparr>)) \<and>
   uciToMove (JStr (units ''e1e2''))
     = Some \<lparr>mv_from = ''e1'', mv_to = ''e2'', mv_promotion = None\<rparr> \<and>
   move chess_a (game (fresh pos_b)) \<lparr>mv_from = ''e1'', mv_to = ''e2'', mv_promotion = None\<rparr>
     = None \<and>
   engineEvaluateAndAct chess_a (Some illegal_reply) (1 / 2) (fresh pos_b) =
     updateStatus chess_a (renderPieces
       (random_fallback chess_a (1 / 2)
          (show_probabilities (Fin (1 / 4)) (engine_begin (fresh pos_b)))))"
proof -
  have short: "length (toLowerCase (trim (units ''e2''))) < 4"
    by code_simp
  have long: "list_all (\<lambda>c. 0 \<le> c \<and> c < 128) (units '' E2E4 '')" "length (trim (units '' E2E4 '')) = 4"
      "list_all (\<lambda>c. 0 \<le> c \<and> c < 128) (units ''B2B1X'')" "length (trim (units ''B2B1X'')) = 5"
    by code_simp+
  have parsed:
    "\<lparr>mv_from = utf8 (take 2 (toLowerCase (trim (units '' E2E4 '')))),
      mv_to = utf8 (take 2 (drop 2 (toLowerCase (trim (units '' E2E4 ''))))),
      mv_promotion = (if 5 \<le> length (trim (units '' E2E4 ''))
                      then Some (utf8 [toLowerCase (trim (units '' E2E4 '')) ! 4]) else None)\<rparr>
     = \<lparr>mv_from = ''e2'', mv_to = ''e4'', mv_promotion = None\<rparr>"
    "\<lparr>mv_from = utf8 (take 2 (toLowerCase (trim (units ''B2B1X'')))),
      mv_to = utf8 (take 2 (drop 2 (toLowerCase (trim (units ''B2B1X''))))),
      mv_promotion = (if 5 \<le> length (trim (units ''B2B1X''))
                      then Some (utf8 [toLowerCase (trim (units ''B2B1X'')) ! 4]) else None)\<rparr>
     = \<lparr>mv_from = ''b2'', mv_to = ''b1'', mv_promotion = Some ''x''\<rparr>"
    by code_simp+
  have live: "\<not> manualGameOver (fresh pos_b)" "\<not> game_over chess_a (game (fresh pos_b))"
      "turn chess_a (game (fresh pos_b)) = Black"
    by code_simp+
  have retry: "retry_reply (fen chess_a (game (fresh pos_b)))
                 = Reply \<lparr>r_prob = Fin (1 / 4), r_best_move = JStr (units ''b2b1x'')\<rparr>"
    by (simp add: retry_reply_def)
  have x: "uciToMove (JStr (units ''b2b1x''))
             = Some \<lparr>mv_from = ''b2'', mv_to = ''b1'', mv_promotion = Some ''x''\<rparr>"
      "truthy (mv_promotion \<lparr>mv_from = ''b2'', mv_to = ''b1'', mv_promotion = Some ''x''\<rparr>)"
      "move chess_a (game (fresh pos_b))
         \<lparr>mv_from = ''b2'', mv_to = ''b1'', mv_promotion = Some ''x''\<rparr> = None"
      "move chess_a (game (fresh pos_b))
         \<lparr>mv_from = ''b2'', mv_to = ''b1'', mv_promotion = Some ''q''\<rparr>
         = Some (after_black ''b2'' ''q'' ''b1'')"
    by code_simp+
  have illegal: "illegal_reply (fen chess_a (game (fresh pos_b)))
                 = Reply \<lparr>r_prob = Fin (1 / 4), r_best_move = JStr (units ''e1e2'')\<rparr>"
    by (simp add: illegal_reply_def)
  have e: "uciToMove (JStr (units ''e1e2''))
             = Some \<lparr>mv_from = ''e1'', mv_to = ''e2'', mv_promotion = None\<rparr>"
      "\<not> truthy (mv_promotion \<lparr>mv_from = ''e1'', mv_to = ''e2'', mv_promotion = None\<rparr>)"
      "move chess_a (game (fresh pos_b))
         \<lparr>mv_from = ''e1'', mv_to = ''e2'', mv_promotion = None\<rparr> = None"
    by code_simp+
  note short_case = uci_parse_and_queen_retry [where u = "units ''e2''", THEN conjunct2, THEN conjunct1]
  note long_case = uci_parse_and_queen_retry [where u = "units '' E2E4 ''",
      THEN conjunct2, THEN conjunct2, THEN conjunct2, THEN conjunct2, THEN conjunct1]
  note upper_case = uci_parse_and_queen_retry [where u = "units ''B2B1X''",
      THEN conjunct2, THEN conjunct2, THEN conjunct2, THEN conjunct2, THEN conjunct1]
  note again = uci_parse_and_queen_retry [where s = "fresh pos_b" and R = chess_a and f = retry_reply
      and r = "\<lparr>r_prob = Fin (1 / 4), r_best_move = JStr (units ''b2b1x'')\<rparr>"
      and m = "\<lparr>mv_from = ''b2'', mv_to = ''b1'', mv_promotion = Some ''x''\<rparr>"
      and g' = "after_black ''b2'' ''q'' ''b1''" and rnd = "1 / 2",
      THEN conjunct2, THEN conjunct2, THEN conjunct2, THEN conjunct2, THEN conjunct2,
      THEN conjunct1]
  note fall = uci_parse_and_queen_retry [where s = "fresh pos_b" and R = chess_a and f = illegal_reply
      and r = "\<lparr>r_prob = Fin (1 / 4), r_best_move = JStr (units ''e1e2'')\<rparr>" and rnd = "1 / 2",
      THEN conjunct2, THEN conjunct2, THEN conjunct2, THEN conjunct2, THEN conjunct2,
      THEN conjunct2]
  from short_case short have p1: "uciToMove (JStr (units ''e2'')) = None"
    by blast
  from long_case long(1,2) have "uciToMove (JStr (units '' E2E4 '')) =
      Some \<lparr>mv_from = utf8 (take 2 (toLowerCase (trim (units '' E2E4 '')))),
            mv_to = utf8 (take 2 (drop 2 (toLowerCase (trim (units '' E2E4 ''))))),
            mv_promotion = (if 5 \<le> length (trim (units '' E2E4 ''))
                            then Some (utf8 [toLowerCase (trim (units '' E2E4 '')) ! 4]) else None)\<rparr>"
    by simp
  with parsed(1) have p2:
    "uciToMove (JStr (units '' E2E4 ''))
       = Some \<lparr>mv_from = ''e2'', mv_to = ''e4'', mv_promotion = None\<rparr>"
    by (simp only:)
  from upper_case long(3,4) have "uciToMove (JStr (units ''B2B1X'')) =
      Some \<lparr>mv_from = utf8 (take 2 (toLowerCase (trim (units ''B2B1X'')))),
            mv_to = utf8 (take 2 (drop 2 (toLowerCase (trim (units ''B2B1X''))))),
            mv_promotion = (if 5 \<le> length (trim (units ''B2B1X''))
                            then Some (utf8 [toLowerCase (trim (units ''B2B1X'')) ! 4]) else None)\<rparr>"
    by simp
  with parsed(2) have p3:
    "uciToMove (JStr (units ''B2B1X''))
       = Some \<lparr>mv_from = ''b2'', mv_to = ''b1'', mv_promotion = Some ''x''\<rparr>"
    by (simp only:)
  note p = p1 p2 p3
  from again live retry x have r:
    "engineEvaluateAndAct chess_a (Some retry_reply) (1 / 2) (fresh pos_b) =
     updateStatus chess_a (renderPieces
       ((show_probabilities (Fin (1 / 4)) (engine_begin (fresh pos_b)))
          \<lparr>game := after_black ''b2'' ''q'' ''b1'', lastAIMoveUCI := Some ''b2b1q''\<rparr>))"
    by simp
  from fall live illegal e have f:
    "engineEvaluateAndAct chess_a (Some illegal_reply) (1 / 2) (fresh pos_b) =
     updateStatus chess_a (renderPieces
       (random_fallback chess_a (1 / 2)
          (show_probabilities (Fin (1 / 4)) (engine_begin (fresh pos_b)))))"
    by simp
  from p r f live long(1,2) x(3,4) e(1,3) show ?thesis
    by simp
qed

subsection \<open>The random fallback\<close>

text \<open>A double below 1 is at most \<open>1 - 2 ^ - 53\<close>.\<close>

lemma double_below_one:
  assumes "round_to_double r = Fin r" "0 \<le> r" "r < 1"
  shows "r \<le> 1 - pow2 (- 53)"
proof (cases "r = 0")
  case True
  have "pow2 (- 53) \<le> pow2 0"
    by (rule pow2_mono) simp
  with True show ?thesis
    by simp
next
  case False
  with assms(2) have pos: "0 < r"
    by simp
  define e where "e = binexp r"
  define k where "k = round_even (r / pow2 (e - 52))"
  note b = binexp_spec [OF pos, folded e_def]
  from assms(1) pos have grid: "r = of_int k * pow2 (e - 52)"
    by (simp add: round_to_double_def Let_def e_def k_def split: if_splits)
  have neg: "e < 0"
  proof (rule ccontr)
    assume "\<not> e < 0"
    then have "pow2 0 \<le> pow2 e"
      by (intro pow2_mono) simp
    moreover from \<open>\<not> e < 0\<close> b(3) have "pow2 e \<le> r"
      by auto
    ultimately show False
      using assms(3) by simp
  qed
  have half: "pow2 (- 1) = 1 / 2"
    by (simp add: pow2_def)
  have tiny: "pow2 (- 53) \<le> pow2 (- 1)"
    by (rule pow2_mono) simp
  show ?thesis
  proof (cases "e = - 1")
    case True
    have one: "pow2 53 * pow2 (- 53) = 1"
      using pow2_inverse [of "- 53"] by simp
    have p53: "pow2 53 = of_int (2 ^ nat 53)"
      by (intro pow2_nat) simp
    from grid True have r: "r = of_int k * pow2 (- 53)"
      by simp
    with assms(3) one have "of_int k * pow2 (- 53) < pow2 53 * pow2 (- 53)"
      by simp
    then have "of_int k < pow2 53"
      by (simp only: mult_less_cancel_right_pos [OF pow2_pos])
    then have "k < 2 ^ nat 53"
      unfolding p53 by (simp only: of_int_less_iff)
    then have "k \<le> 2 ^ nat 53 - 1"
      by simp
    then have "(of_int k :: real) \<le> of_int (2 ^ nat 53 - 1)"
      by (simp only: of_int_le_iff)
    then have "of_int k \<le> pow2 53 - 1"
      unfolding p53 by simp
    then have "of_int k * pow2 (- 53) \<le> (pow2 53 - 1) * pow2 (- 53)"
      by (rule mult_right_mono) simp
    also have "\<dots> = 1 - pow2 (- 53)"
      using one by (simp add: algebra_simps)
    finally show ?thesis
      by (simp only: r)
  next
    case False
    with neg have "e + 1 \<le> - 1"
      by simp
    then have "pow2 (e + 1) \<le> pow2 (- 1)"
      by (rule pow2_mono)
    with b(2) half tiny show ?thesis
      by linarith
  qed
qed

text \<open>
  The index \<^verbatim>\<open>Math.floor(Math.random() * moves.length)\<close>: a whole number inside the
  list, and the integer part of the exact product unless the product is within the
  rounding error of the next integer.
\<close>

lemma random_index_cases:
  assumes rnd: "round_to_double rnd = Fin rnd" "0 \<le> rnd" "rnd < 1"
      and n: "0 < n" "n < 2 ^ 32"
  obtains i where "random_index rnd n = Fin (real i)" "i < n"
    "real i \<le> rnd * real n * (1 + pow2 (- 53)) + pow2 (- 1075)"
    "rnd * real n < real i + 1"
proof (cases "rnd = 0")
  case True
  then have "random_index rnd n = Fin (real 0)"
    by (simp add: random_index_def Math_floor_def round_to_double_def)
  with True n(1) show thesis
    by (intro that [of 0]) simp_all
next
  case False
  define x where "x = rnd * real n"
  from False rnd(2) n(1) have pos: "0 < x"
    by (simp add: x_def)
  from rnd(3) n(1) have below: "x < real n"
    by (simp add: x_def)
  have "real n < 2 ^ 32"
    using n(2) by (metis of_nat_less_iff of_nat_numeral of_nat_power)
  moreover have "(2 :: real) ^ 32 \<le> pow2 53"
    by (simp add: pow2_def)
  ultimately have small: "x < pow2 53"
    using below by linarith
  obtain y where y: "round_to_double x = Fin y" "0 \<le> y"
      "\<bar>y - x\<bar> \<le> pow2 (binexp x - 53)"
      "\<And>k. of_int k \<le> x \<Longrightarrow> of_int k \<le> y"
    by (rule round_to_double_pos [OF pos small]) blast
  define i where "i = nat \<lfloor>y\<rfloor>"
  from y(2) have i: "real i = of_int \<lfloor>y\<rfloor>"
    by (simp add: i_def)
  have idx: "random_index rnd n = Fin (real i)"
    by (simp add: random_index_def Math_floor_def y(1) [unfolded x_def] i)
  have inside: "y < real n"
  proof (rule ccontr)
    assume "\<not> y < real n"
    then have "real n \<le> x + pow2 (binexp x - 53)"
      using y(3) by linarith
    moreover have "rnd * real n \<le> (1 - pow2 (- 53)) * real n"
      using double_below_one [OF rnd] by (intro mult_right_mono) simp_all
    ultimately have "real n * pow2 (- 53) \<le> pow2 (binexp x - 53)"
      by (simp add: x_def algebra_simps)
    also have "pow2 (binexp x - 53) = pow2 (binexp x) * pow2 (- 53)"
      using pow2_add [of "binexp x" "- 53"] by simp
    finally have big: "real n \<le> pow2 (binexp x)"
      by (simp only: mult_le_cancel_right_pos [OF pow2_pos])
    from binexp_spec(3) [OF pos] show False
    proof
      assume "pow2 (binexp x) \<le> x"
      with big below show False
        by simp
    next
      assume "binexp x = - 1022"
      moreover have "pow2 (- 1022) < pow2 0"
        by (simp only: pow2_less)
      ultimately show False
        using big n(1) by simp
    qed
  qed
  have less: "i < n"
  proof -
    have "real i \<le> y"
      unfolding i by simp
    with inside have "real i < real n"
      by simp
    then show ?thesis
      by simp
  qed
  have upper: "real i \<le> rnd * real n * (1 + pow2 (- 53)) + pow2 (- 1075)"
  proof -
    have "real i \<le> y"
      unfolding i by simp
    with y(3) half_quantum [OF pos]
    have "real i \<le> x + (x * pow2 (- 53) + pow2 (- 1075))"
      by linarith
    then show ?thesis
      by (simp add: x_def algebra_simps)
  qed
  have lower: "rnd * real n < real i + 1"
  proof (rule ccontr)
    assume "\<not> rnd * real n < real i + 1"
    then have "of_int (\<lfloor>y\<rfloor> + 1) \<le> x"
      by (simp add: x_def i)
    then have "of_int (\<lfloor>y\<rfloor> + 1) \<le> y"
      by (rule y(4))
    moreover have "y < of_int \<lfloor>y\<rfloor> + 1"
      by linarith
    ultimately show False
      by simp
  qed
  from idx less upper lower show thesis
    by (rule that)
qed

lemma at_index_nat: "i < length xs \<Longrightarrow> at_index xs (Fin (real i)) = Some (xs ! i)"
  by (simp add: at_index_def)

lemma random_fallback_pick:
  assumes "random_index rnd (length (moves R (game s))) = Fin (real i)"
      and "i < length (moves R (game s))"
  shows "random_fallback R rnd s =
           s\<lparr>game := (case move R (game s) (fallback_request (moves R (game s) ! i)) of
                       Some g1 \<Rightarrow> g1 | None \<Rightarrow> game s),
             lastAIMoveUCI := Some (m_from (moves R (game s) ! i) @ m_to (moves R (game s) ! i) @
                                    str_or (m_promotion (moves R (game s) ! i)) [])\<rparr>"
proof -
  from assms(2) have "moves R (game s) \<noteq> []"
    by auto
  with assms show ?thesis
    by (simp add: random_fallback_def Let_def at_index_nat)
qed

text \<open>
  Claim C8. \<^verbatim>\<open>Math.random()\<close> gives a double \<open>rnd\<close> with \<open>0 \<le> rnd < 1\<close>. With
  a non-empty list of \<open>n\<close> legal moves (an array has fewer than \<open>2 ^ 32\<close> entries) the
  fallback takes the entry of the full list at the index \<open>i\<close> that is the integer part
  of the double product \<open>rnd * n\<close>. The index is inside the list, and it is the integer
  part of the exact product \<open>rnd * n\<close>, except that a product within the rounding error
  of one multiplication below an integer gives that integer: index \<open>j\<close> is taken for
  the values of \<open>rnd\<close> from \<open>j / n\<close> to \<open>(j + 1) / n\<close>, an interval of the same length
  \<open>1 / n\<close> for every entry (up to that error), so a uniform \<open>rnd\<close> gives a uniform
  choice among all the legal moves. The chosen move is submitted with the promotion
  \<^verbatim>\<open>'q'\<close> when its flags contain \<^verbatim>\<open>p\<close> and as the engine listed it otherwise; the
  entries without the flag having no promotion, a promotion to queen is submitted exactly
  for the flagged entries and none for the others. On Black's turn in a running game
  without a collaborator the cycle is this fallback.
\<close>

theorem random_fallback_uniform_queen:
  assumes rnd: "round_to_double rnd = Fin rnd" "0 \<le> rnd" "rnd < 1"
      and some: "moves R (game s) \<noteq> []" "length (moves R (game s)) < 2 ^ 32"
      and n: "n = length (moves R (game s))"
  shows "\<exists>i m.
      random_index rnd n = Fin (real i) \<and> i < n \<and> m = moves R (game s) ! i \<and>
      real i \<le> rnd * real n * (1 + pow2 (- 53)) + pow2 (- 1075) \<and>
      rnd * real n < real i + 1 \<and>
      (\<forall>j. real j \<le> rnd * real n \<and>
           rnd * real n * (1 + pow2 (- 53)) + pow2 (- 1075) < real j + 1 \<longrightarrow> i = j) \<and>
      random_fallback R rnd s =
        s\<lparr>game := (case move R (game s) (fallback_request m) of
                    Some g1 \<Rightarrow> g1 | None \<Rightarrow> game s),
          lastAIMoveUCI := Some (m_from m @ m_to m @ str_or (m_promotion m) [])\<rparr> \<and>
      fallback_request m =
        \<lparr>mv_from = m_from m, mv_to = m_to m,
         mv_promotion = (if CHR ''p'' \<in> set (m_flags m) then Some ''q'' else m_promotion m)\<rparr> \<and>
      ((CHR ''p'' \<notin> set (m_flags m) \<longrightarrow> m_promotion m = None) \<longrightarrow>
         (mv_promotion (fallback_request m) = Some ''q'' \<longleftrightarrow> CHR ''p'' \<in> set (m_flags m)) \<and>
         (mv_promotion (fallback_request m) = None \<longleftrightarrow> CHR ''p'' \<notin> set (m_flags m))) \<and>
      (\<not> manualGameOver s \<and> \<not> game_over R (game s) \<and> turn R (game s) = Black \<longrightarrow>
         engineEvaluateAndAct R None rnd s =
           updateStatus R (renderPieces (random_fallback R rnd (engine_begin s))))"
proof -
  from some(1) have pos: "0 < n"
    by (simp add: n)
  from some(2) have bound: "n < 2 ^ 32"
    by (simp add: n)
  obtain i where i: "random_index rnd n = Fin (real i)" "i < n"
      "real i \<le> rnd * real n * (1 + pow2 (- 53)) + pow2 (- 1075)"
      "rnd * real n < real i + 1"
    using rnd pos bound by (rule random_index_cases)
  define m where "m = moves R (game s) ! i"
  have only: "i = j"
    if "real j \<le> rnd * real n \<and>
        rnd * real n * (1 + pow2 (- 53)) + pow2 (- 1075) < real j + 1" for j
  proof -
    from that i(3) have "real i < real j + 1"
      by linarith
    moreover from that i(4) have "real j < real i + 1"
      by linarith
    ultimately show ?thesis
      by linarith
  qed
  have played: "random_fallback R rnd s =
        s\<lparr>game := (case move R (game s) (fallback_request m) of
                    Some g1 \<Rightarrow> g1 | None \<Rightarrow> game s),
          lastAIMoveUCI := Some (m_from m @ m_to m @ str_or (m_promotion m) [])\<rparr>"
    unfolding m_def using i(1,2) unfolding n by (rule random_fallback_pick)
  have request: "fallback_request m =
        \<lparr>mv_from = m_from m, mv_to = m_to m,
         mv_promotion = (if CHR ''p'' \<in> set (m_flags m) then Some ''q'' else m_promotion m)\<rparr>"
    by (simp add: fallback_request_def)
  have queen: "(mv_promotion (fallback_request m) = Some ''q'' \<longleftrightarrow> CHR ''p'' \<in> set (m_flags m)) \<and>
         (mv_promotion (fallback_request m) = None \<longleftrightarrow> CHR ''p'' \<notin> set (m_flags m))"
    if "CHR ''p'' \<notin> set (m_flags m) \<longrightarrow> m_promotion m = None"
    using that by (auto simp: fallback_request_def)
  have cycle: "engineEvaluateAndAct R None rnd s =
           updateStatus R (renderPieces (random_fallback R rnd (engine_begin s)))"
    if "\<not> manualGameOver s \<and> \<not> game_over R (game s) \<and> turn R (game s) = Black"
    using that by (simp add: engine_cycle engine_fallback_def)
  show ?thesis
    apply (rule exI [where x = i])
    apply (rule exI [where x = m])
    using i m_def only played request queen cycle
    apply blast
    done
qed

theorem random_fallback_uniform_queen_witness:
  "round_to_double (1 / 2) = Fin (1 / 2) \<and> round_to_double (7 / 8) = Fin (7 / 8) \<and>
   length (moves chess_a (game (fresh pos_b))) = 9 \<and>
   random_index (1 / 2) 9 = Fin 4 \<and>
   moves chess_a (game (fresh pos_b)) ! 4 = mv ''e8'' ''d8'' ''n'' None \<and>
   CHR ''p'' \<notin> set (m_flags (mv ''e8'' ''d8'' ''n'' None)) \<and>
   fallback_request (mv ''e8'' ''d8'' ''n'' None)
     = \<lparr>mv_from = ''e8'', mv_to = ''d8'', mv_promotion = None\<rparr> \<and>
   game (random_fallback chess_a (1 / 2) (fresh pos_b)) = after_black ''e8'' ''k'' ''d8'' \<and>
   random_index (7 / 8) 9 = Fin 7 \<and>
   moves chess_a (game (fresh pos_b)) ! 7 = mv ''b2'' ''b1'' ''np'' (Some ''b'') \<and>
   CHR ''p'' \<in> set (m_flags (mv ''b2'' ''b1'' ''np'' (Some ''b''))) \<and>
   fallback_request (mv ''b2'' ''b1'' ''np'' (Some ''b''))
     = \<lparr>mv_from = ''b2'', mv_to = ''b1'', mv_promotion = Some ''q''\<rparr> \<and>
   game (random_fallback chess_a (7 / 8) (fresh pos_b)) = after_black ''b2'' ''q'' ''b1'' \<and>
   lastAIMoveUCI (random_fallback chess_a (7 / 8) (fresh pos_b)) = Some ''b2b1b'' \<and>
   turn chess_a (game (fresh pos_b)) = Black \<and>
   engineEvaluateAndAct chess_a None (7 / 8) (fresh pos_b) =
     updateStatus chess_a (renderPieces (random_fallback chess_a (7 / 8) (engine_begin (fresh pos_b))))"
proof -
  have dbl: "round_to_double (1 / 2) = Fin (1 / 2)" "round_to_double (7 / 8) = Fin (7 / 8)"
    by code_simp+
  have range: "(0::real) \<le> 1 / 2" "(1 / 2 :: real) < 1" "(0::real) \<le> 7 / 8" "(7 / 8 :: real) < 1"
    by simp_all
  have some: "moves chess_a (game (fresh pos_b)) \<noteq> []"
    and len: "length (moves chess_a (game (fresh pos_b))) = 9"
    by code_simp+
  have few: "length (moves chess_a (game (fresh pos_b))) < 2 ^ 32"
    unfolding len by simp
  have idx: "random_index (1 / 2) 9 = Fin 4" "random_index (7 / 8) 9 = Fin 7"
    by code_simp+
  have entry: "moves chess_a (game (fresh pos_b)) ! 4 = mv ''e8'' ''d8'' ''n'' None"
      "moves chess_a (game (fresh pos_b)) ! 7 = mv ''b2'' ''b1'' ''np'' (Some ''b'')"
    by code_simp+
  have quiet: "CHR ''p'' \<notin> set (m_flags (mv ''e8'' ''d8'' ''n'' None))"
      "m_from (mv ''e8'' ''d8'' ''n'' None) = ''e8''" "m_to (mv ''e8'' ''d8'' ''n'' None) = ''d8''"
      "m_promotion (mv ''e8'' ''d8'' ''n'' None) = None"
    by code_simp+
  have flag: "CHR ''p'' \<in> set (m_flags (mv ''b2'' ''b1'' ''np'' (Some ''b'')))"
      "m_from (mv ''b2'' ''b1'' ''np'' (Some ''b'')) = ''b2''"
      "m_to (mv ''b2'' ''b1'' ''np'' (Some ''b'')) = ''b1''"
      "m_promotion (mv ''b2'' ''b1'' ''np'' (Some ''b'')) = Some ''b''"
    by code_simp+
  have answer: "move chess_a (game (fresh pos_b))
                 \<lparr>mv_from = ''e8'', mv_to = ''d8'', mv_promotion = None\<rparr>
               = Some (after_black ''e8'' ''k'' ''d8'')"
      "move chess_a (game (fresh pos_b))
                 \<lparr>mv_from = ''b2'', mv_to = ''b1'', mv_promotion = Some ''q''\<rparr>
               = Some (after_black ''b2'' ''q'' ''b1'')"
    by code_simp+
  have live: "\<not> manualGameOver (fresh pos_b)" "\<not> game_over chess_a (game (fresh pos_b))"
      "turn chess_a (game (fresh pos_b)) = Black"
    by code_simp+
  have suffix: "str_or (Some ''b'') [] = ''b''"
    by code_simp
  from random_fallback_uniform_queen [OF dbl(1) range(1,2) some few len [symmetric]]
  obtain i m where king:
      "random_index (1 / 2) 9 = Fin (real i)" "m = moves chess_a (game (fresh pos_b)) ! i"
      "random_fallback chess_a (1 / 2) (fresh pos_b) =
        (fresh pos_b)\<lparr>game := (case move chess_a (game (fresh pos_b)) (fallback_request m) of
                    Some g1 \<Rightarrow> g1 | None \<Rightarrow> game (fresh pos_b)),
          lastAIMoveUCI := Some (m_from m @ m_to m @ str_or (m_promotion m) [])\<rparr>"
      "fallback_request m =
        \<lparr>mv_from = m_from m, mv_to = m_to m,
         mv_promotion = (if CHR ''p'' \<in> set (m_flags m) then Some ''q'' else m_promotion m)\<rparr>"
    by blast
  from king(1) idx(1) have "i = 4"
    by simp
  with king(2) entry(1) have m: "m = mv ''e8'' ''d8'' ''n'' None"
    by simp
  from king(4) quiet have req1: "fallback_request (mv ''e8'' ''d8'' ''n'' None)
     = \<lparr>mv_from = ''e8'', mv_to = ''d8'', mv_promotion = None\<rparr>"
    unfolding m by simp
  from king(3) have played1:
    "game (random_fallback chess_a (1 / 2) (fresh pos_b)) = after_black ''e8'' ''k'' ''d8''"
    unfolding m req1 answer(1) by simp
  from random_fallback_uniform_queen [OF dbl(2) range(3,4) some few len [symmetric]]
  obtain i' m' where pawn:
      "random_index (7 / 8) 9 = Fin (real i')" "m' = moves chess_a (game (fresh pos_b)) ! i'"
      "random_fallback chess_a (7 / 8) (fresh pos_b) =
        (fresh pos_b)\<lparr>game := (case move chess_a (game (fresh pos_b)) (fallback_request m') of
                    Some g1 \<Rightarrow> g1 | None \<Rightarrow> game (fresh pos_b)),
          lastAIMoveUCI := Some (m_from m' @ m_to m' @ str_or (m_promotion m') [])\<rparr>"
      "fallback_request m' =
        \<lparr>mv_from = m_from m', mv_to = m_to m',
         mv_promotion = (if CHR ''p'' \<in> set (m_flags m') then Some ''q'' else m_promotion m')\<rparr>"
      "\<not> manualGameOver (fresh pos_b) \<and> \<not> game_over chess_a (game (fresh pos_b)) \<and>
       turn chess_a (game (fresh pos_b)) = Black \<longrightarrow>
         engineEvaluateAndAct chess_a None (7 / 8) (fresh pos_b) =
           updateStatus chess_a (renderPieces (random_fallback chess_a (7 / 8) (engine_begin (fresh pos_b))))"
    by blast
  from pawn(1) idx(2) have "i' = 7"
    by simp
  with pawn(2) entry(2) have m': "m' = mv ''b2'' ''b1'' ''np'' (Some ''b'')"
    by simp
  from pawn(4) flag have req2: "fallback_request (mv ''b2'' ''b1'' ''np'' (Some ''b''))
     = \<lparr>mv_from = ''b2'', mv_to = ''b1'', mv_promotion = Some ''q''\<rparr>"
    unfolding m' by simp
  from pawn(3) have played2:
    "game (random_fallback chess_a (7 / 8) (fresh pos_b)) = after_black ''b2'' ''q'' ''b1''"
    "lastAIMoveUCI (random_fallback chess_a (7 / 8) (fresh pos_b)) = Some ''b2b1b''"
    unfolding m' req2 answer(2) flag(2-4) suffix by simp_all
  from pawn(5) live have cycle: "engineEvaluateAndAct chess_a None (7 / 8) (fresh pos_b) =
     updateStatus chess_a (renderPieces (random_fallback chess_a (7 / 8) (engine_begin (fresh pos_b))))"
    by blast
  from dbl len idx entry quiet(1) flag(1) req1 req2 played1 played2 live(3) cycle show ?thesis
    by blast
qed

subsection \<open>Failure of the evaluation\<close>

lemma random_fallback_keeps:
  "whiteProbabilityText (random_fallback R rnd s) = whiteProbabilityText s"
  "blackProbabilityText (random_fallback R rnd s) = blackProbabilityText s"
  "manualGameOver (random_fallback R rnd s) = manualGameOver s"
  by (simp_all add: random_fallback_def Let_def split: option.splits)

lemma rendered_updateStatus [simp]: "rendered (updateStatus R s) = rendered s"
  by (simp add: updateStatus_def Let_def)

lemma cycle_end_texts:
  assumes "\<not> manualGameOver m"
  shows "whiteProbabilityText (updateStatus R (renderPieces m)) =
           (if game_over R (game (updateStatus R (renderPieces m))) then ''N/A''
            else whiteProbabilityText m)"
    and "blackProbabilityText (updateStatus R (renderPieces m)) =
           (if game_over R (game (updateStatus R (renderPieces m))) then ''N/A''
            else blackProbabilityText m)"
  using assms by (simp_all add: updateStatus_def renderPieces_def Let_def)

text \<open>
  Claim C9, as stated, fails for a malformed response. A collaborator that resolves to an
  object with neither field makes nothing throw: on Black's turn the displays, which read
  \<^verbatim>\<open>Calculating\<close> before the reply, are overwritten with \<^verbatim>\<open>NaN%\<close> before the
  fallback runs, and they still read \<^verbatim>\<open>NaN%\<close> after the fallback move and the
  redraw.
\<close>

theorem malformed_reply_shows_NaN:
  "turn chess_a (game (fresh pos_b)) = Black \<and>
   \<not> game_over chess_a (game (fresh pos_b)) \<and>
   empty_reply (fen chess_a (game (fresh pos_b))) = Reply \<lparr>r_prob = NaN, r_best_move = JOther\<rparr> \<and>
   whiteProbabilityText (engine_begin (fresh pos_b)) = calculating_text \<and>
   whiteProbabilityText
     (fst (engine_reply chess_a (empty_reply (fen chess_a (game (fresh pos_b))))
        (engine_begin (fresh pos_b)))) = ''NaN%'' \<and>
   \<not> snd (engine_reply chess_a (empty_reply (fen chess_a (game (fresh pos_b))))
        (engine_begin (fresh pos_b))) \<and>
   game (engineEvaluateAndAct chess_a (Some empty_reply) (7 / 8) (fresh pos_b))
     = after_black ''b2'' ''q'' ''b1'' \<and>
   whiteProbabilityText (engineEvaluateAndAct chess_a (Some empty_reply) (7 / 8) (fresh pos_b))
     = ''NaN%'' \<and>
   blackProbabilityText (engineEvaluateAndAct chess_a (Some empty_reply) (7 / 8) (fresh pos_b))
     = ''NaN%'' \<and>
   ''NaN%'' \<noteq> calculating_text"
  by code_simp

text \<open>
  Claim C9, amended. When the collaborator function is absent, throws (or rejects), or
  resolves to \<^verbatim>\<open>null\<close> or \<^verbatim>\<open>undefined\<close>, the cycle in a running game is the
  random fallback on Black's turn (and no move otherwise) followed by the redraw and the
  status update, with nothing else written: the displays read \<^verbatim>\<open>Calculating\<close> through
  the fallback move, and after the cycle they read \<^verbatim>\<open>Calculating\<close> still, or
  \<^verbatim>\<open>N/A\<close> when the game has ended; the board drawn is the final position.
\<close>

theorem evaluation_failure_falls_back:
  assumes live: "\<not> manualGameOver s" "\<not> game_over R (game s)"
      and failed: "case fetchEngineEval of
                     None \<Rightarrow> True
                   | Some f \<Rightarrow> f (fen R (game s)) = Threw \<or> f (fen R (game s)) = Nullish"
      and final: "final = engineEvaluateAndAct R fetchEngineEval rnd s"
  shows "final =
           updateStatus R (renderPieces
             (if turn R (game s) = Black then random_fallback R rnd (engine_begin s)
              else engine_begin s)) \<and>
         whiteProbabilityText (random_fallback R rnd (engine_begin s)) = calculating_text \<and>
         blackProbabilityText (random_fallback R rnd (engine_begin s)) = calculating_text \<and>
         whiteProbabilityText final =
           (if game_over R (game final) then ''N/A'' else calculating_text) \<and>
         blackProbabilityText final =
           (if game_over R (game final) then ''N/A'' else calculating_text) \<and>
         rendered final = game final"
proof -
  define mid where "mid = (if turn R (game s) = Black then random_fallback R rnd (engine_begin s)
              else engine_begin s)"
  from failed have reply:
    "(case fetchEngineEval of
        None \<Rightarrow> (engine_begin s, False)
      | Some f \<Rightarrow> engine_reply R (f (fen R (game s))) (engine_begin s)) = (engine_begin s, False)"
    by (auto simp: engine_reply_def split: option.splits)
  from live have eq: "final = updateStatus R (renderPieces mid)"
    unfolding final mid_def by (simp add: engine_cycle reply engine_fallback_def)
  have through: "whiteProbabilityText (random_fallback R rnd (engine_begin s)) = calculating_text"
      "blackProbabilityText (random_fallback R rnd (engine_begin s)) = calculating_text"
    by (simp_all add: random_fallback_keeps engine_begin_def)
  have calc: "whiteProbabilityText mid = calculating_text"
      "blackProbabilityText mid = calculating_text"
    unfolding mid_def by (simp_all add: random_fallback_keeps engine_begin_def)
  from live have manual: "\<not> manualGameOver mid"
    unfolding mid_def by (simp add: random_fallback_keeps)
  have white: "whiteProbabilityText final =
           (if game_over R (game final) then ''N/A'' else calculating_text)"
    unfolding eq using cycle_end_texts(1) [OF manual, of R] calc by simp
  have black: "blackProbabilityText final =
           (if game_over R (game final) then ''N/A'' else calculating_text)"
    unfolding eq using cycle_end_texts(2) [OF manual, of R] calc by simp
  have drawn: "rendered final = game final"
    unfolding eq by (simp add: renderPieces_def)
  from eq through white black drawn show ?thesis
    unfolding mid_def by blast
qed

theorem evaluation_failure_falls_back_witness:
  "\<not> manualGameOver (fresh pos_b) \<and> \<not> game_over chess_a (game (fresh pos_b)) \<and>
   throwing (fen chess_a (game (fresh pos_b))) = Threw \<and>
   turn chess_a (game (fresh pos_b)) = Black \<and>
   engineEvaluateAndAct chess_a (Some throwing) (7 / 8) (fresh pos_b) =
     updateStatus chess_a (renderPieces (random_fallback chess_a (7 / 8) (engine_begin (fresh pos_b)))) \<and>
   game (engineEvaluateAndAct chess_a (Some throwing) (7 / 8) (fresh pos_b))
     = after_black ''b2'' ''q'' ''b1'' \<and>
   whiteProbabilityText (engineEvaluateAndAct chess_a (Some throwing) (7 / 8) (fresh pos_b))
     = calculating_text \<and>
   blackProbabilityText (engineEvaluateAndAct chess_a (Some throwing) (7 / 8) (fresh pos_b))
     = calculating_text \<and>
   rendered (engineEvaluateAndAct chess_a (Some throwing) (7 / 8) (fresh pos_b))
     = after_black ''b2'' ''q'' ''b1''"
proof -
  have live: "\<not> manualGameOver (fresh pos_b)" "\<not> game_over chess_a (game (fresh pos_b))"
    by code_simp+
  have black: "turn chess_a (game (fresh pos_b)) = Black"
    by code_simp
  have threw: "throwing (fen chess_a (game (fresh pos_b))) = Threw"
    by (simp add: throwing_def)
  then have failed: "case Some throwing of
                     None \<Rightarrow> True
                   | Some f \<Rightarrow> f (fen chess_a (game (fresh pos_b))) = Threw \<or>
                              f (fen chess_a (game (fresh pos_b))) = Nullish"
    by simp
  have played: "game (engineEvaluateAndAct chess_a (Some throwing) (7 / 8) (fresh pos_b))
     = after_black ''b2'' ''q'' ''b1''"
    by code_simp
  have running: "\<not> game_over chess_a (after_black ''b2'' ''q'' ''b1'')"
    by code_simp
  note cycle = evaluation_failure_falls_back [OF live failed refl, of "7 / 8"]
  from cycle black have c1: "engineEvaluateAndAct chess_a (Some throwing) (7 / 8) (fresh pos_b) =
     updateStatus chess_a (renderPieces (random_fallback chess_a (7 / 8) (engine_begin (fresh pos_b))))"
    by simp
  from cycle have
    "whiteProbabilityText (engineEvaluateAndAct chess_a (Some throwing) (7 / 8) (fresh pos_b))
       = (if game_over chess_a (game (engineEvaluateAndAct chess_a (Some throwing) (7 / 8) (fresh pos_b)))
          then ''N/A'' else calculating_text)"
    "blackProbabilityText (engineEvaluateAndAct chess_a (Some throwing) (7 / 8) (fresh pos_b))
       = (if game_over chess_a (game (engineEvaluateAndAct chess_a (Some throwing) (7 / 8) (fresh pos_b)))
          then ''N/A'' else calculating_text)"
    "rendered (engineEvaluateAndAct chess_a (Some throwing) (7 / 8) (fresh pos_b))
       = game (engineEvaluateAndAct chess_a (Some throwing) (7 / 8) (fresh pos_b))"
    by blast+
  with played running have c2:
    "whiteProbabilityText (engineEvaluateAndAct chess_a (Some throwing) (7 / 8) (fresh pos_b))
       = calculating_text"
    "blackProbabilityText (engineEvaluateAndAct chess_a (Some throwing) (7 / 8) (fresh pos_b))
       = calculating_text"
    "rendered (engineEvaluateAndAct chess_a (Some throwing) (7 / 8) (fresh pos_b))
       = after_black ''b2'' ''q'' ''b1''"
    by simp_all
  from c1 c2 live black threw played show ?thesis
    by blast
qed

end
